theory Spec2Isabelle
  imports Complex_Main
begin

section \<open>The splash-screen generator \<open>scripts/generate-splash.py\<close>\<close>

text \<open>
  The script renders one canvas by a fixed sequence of imaging-library calls, resizes it
  twice and writes three PNG files and a manifest. The script's own functions are HOL
  functions below. Values of the imaging library are modelled as follows.
  \<^item> A colour is the list of its integer components, as the Python tuple is.
  \<^item> A Python float is the real number it denotes. \<open>lerp_color\<close> takes the rounding of
    double arithmetic as a parameter \<open>fl\<close>, applied after each of its operations; the
    drawing stages are modelled in exact arithmetic (\<open>exact\<close>). \<open>int(x)\<close> truncates
    toward zero.
  \<^item> An image is the term of library calls that produced it; \<open>size_of\<close> and \<open>mode_of\<close>
    read its dimensions and mode, and \<open>getpixel\<close> gives pixel values for the calls
    whose raster result is fixed by the arguments alone (a fresh image, an axis-parallel
    line, an RGB/RGBA conversion).
\<close>

subsection \<open>Constants\<close>

type_synonym color = "int list"

definition W :: int where "W = 1290"
definition H :: int where "H = 2796"

definition BG_TOP :: color where "BG_TOP = [10, 0, 20]"
definition BG_MID :: color where "BG_MID = [26, 5, 48]"
definition BG_BOT :: color where "BG_BOT = [13, 0, 32]"
definition PURPLE :: color where "PURPLE = [168, 85, 247]"
definition PURPLE_LT :: color where "PURPLE_LT = [192, 132, 252]"
definition TEXT_CLR :: color where "TEXT_CLR = [226, 212, 240]"
definition TAG_CLR :: color where "TAG_CLR = [168, 130, 220]"
definition WHITE :: color where "WHITE = [255, 255, 255]"

definition FONT_BOLD :: string where
  "FONT_BOLD = ''/usr/share/fonts/truetype/liberation/LiberationSans-Bold.ttf''"
definition FONT_REG :: string where
  "FONT_REG = ''/usr/share/fonts/truetype/liberation/LiberationSans-Regular.ttf''"

subsection \<open>Python numerics\<close>

definition py_int :: "real \<Rightarrow> int" where
  \<comment> \<open>\<open>int(x)\<close> on a float: the fractional part is dropped, toward zero.\<close>
  "py_int x = (if 0 \<le> x then \<lfloor>x\<rfloor> else \<lceil>x\<rceil>)"

definition py_range :: "int \<Rightarrow> int list" where
  \<comment> \<open>\<open>range(n)\<close>\<close>
  "py_range n = map int [0..<nat n]"

definition py_range_step :: "int \<Rightarrow> int \<Rightarrow> nat \<Rightarrow> int list" where
  \<comment> \<open>\<open>range(a, b, s)\<close> for a positive step \<open>s\<close>\<close>
  "py_range_step a b s = map (\<lambda>k. a + int k * int s) [0..<nat ((b - a + int s - 1) div int s)]"

definition py_range_down :: "int \<Rightarrow> int \<Rightarrow> int list" where
  \<comment> \<open>\<open>range(a, b, -1)\<close>: from \<open>a\<close> down to \<open>b + 1\<close>\<close>
  "py_range_down a b = map (\<lambda>k. a - int k) [0..<nat (a - b)]"

definition exact :: "real \<Rightarrow> real" where
  \<comment> \<open>arithmetic without rounding\<close>
  "exact x = x"

definition rounding :: "(real \<Rightarrow> real) \<Rightarrow> bool" where
  \<comment> \<open>what is used of rounding to the nearest double: it keeps the order, and the integers
      up to \<open>2^53\<close> are doubles\<close>
  "rounding fl = ((\<forall>x y. x \<le> y \<longrightarrow> fl x \<le> fl y) \<and> (\<forall>n :: int. \<bar>n\<bar> \<le> 2 ^ 53 \<longrightarrow> fl (of_int n) = of_int n))"

subsection \<open>lerp_color\<close>

definition lerp_color :: "(real \<Rightarrow> real) \<Rightarrow> color \<Rightarrow> color \<Rightarrow> real \<Rightarrow> color" where
  \<comment> \<open>\<open>(b - a) * t\<close> is an int times a float and \<open>a + ...\<close> an int plus a float: two
      double operations, each rounded by \<open>fl\<close>\<close>
  "lerp_color fl c1 c2 t = map (\<lambda>(a, b). py_int (fl (of_int a + fl (of_int (b - a) * t)))) (zip c1 c2)"

subsection \<open>Images of the imaging library\<close>

datatype mode = RGB | RGBA | L | LA

type_synonym point = "int \<times> int"
type_synonym box = "int \<times> int \<times> int \<times> int"

datatype font = Font (font_file: string) (font_size: int) (getbbox: "string \<Rightarrow> box")

datatype resample = LANCZOS | DEFAULT_RESAMPLE

datatype image =
    New mode point color
  | Line image point point color
  | Ellipse image box color
  | RoundedRectangle image box int "color option" "color option" int
  | DrawText image point string color font
  | GaussianBlur image int
  | Convert image mode
  | AlphaComposite image image
  | Paste image image point "image option"
  | Resize image point resample
  | PutAlpha image image
  | Crop image box
  | Copy image

fun mode_of :: "image \<Rightarrow> mode" where
  "mode_of (New m sz c) = m"
| "mode_of (Line im p q c) = mode_of im"
| "mode_of (Ellipse im b c) = mode_of im"
| "mode_of (RoundedRectangle im b r f ol w) = mode_of im"
| "mode_of (DrawText im p s c f) = mode_of im"
| "mode_of (GaussianBlur im r) = mode_of im"
| "mode_of (Convert im m) = m"
| "mode_of (AlphaComposite a b) = RGBA"
| "mode_of (Paste im src p msk) = mode_of im"
| "mode_of (Resize im sz rs) = mode_of im"
| "mode_of (PutAlpha im a) = (case mode_of im of RGB \<Rightarrow> RGBA | L \<Rightarrow> LA | m \<Rightarrow> m)"
| "mode_of (Crop im b) = mode_of im"
| "mode_of (Copy im) = mode_of im"

fun size_of :: "image \<Rightarrow> point" where
  "size_of (New m sz c) = sz"
| "size_of (Line im p q c) = size_of im"
| "size_of (Ellipse im b c) = size_of im"
| "size_of (RoundedRectangle im b r f ol w) = size_of im"
| "size_of (DrawText im p s c f) = size_of im"
| "size_of (GaussianBlur im r) = size_of im"
| "size_of (Convert im m) = size_of im"
| "size_of (AlphaComposite a b) = size_of a"
| "size_of (Paste im src p msk) = size_of im"
| "size_of (Resize im sz rs) = sz"
| "size_of (PutAlpha im a) = size_of im"
| "size_of (Crop im b) = (case b of (x0, y0, x1, y1) \<Rightarrow> (x1 - x0, y1 - y0))"
| "size_of (Copy im) = size_of im"

definition ink :: "mode \<Rightarrow> color \<Rightarrow> color" where
  \<comment> \<open>The pixel value a drawing call stores for a fill colour: an image without alpha
      drops a fourth component, an image with alpha completes a triple with 255.\<close>
  "ink m c = (case m of
       RGB \<Rightarrow> take 3 c
     | RGBA \<Rightarrow> (if length c = 3 then c @ [255] else take 4 c)
     | L \<Rightarrow> take 1 c
     | LA \<Rightarrow> (if length c = 1 then c @ [255] else take 2 c))"

definition in_bounds :: "image \<Rightarrow> point \<Rightarrow> bool" where
  "in_bounds im p = (0 \<le> fst p \<and> fst p < fst (size_of im) \<and> 0 \<le> snd p \<and> snd p < snd (size_of im))"

definition on_segment :: "point \<Rightarrow> point \<Rightarrow> point \<Rightarrow> bool" where
  \<comment> \<open>the points of an axis-parallel segment, both ends included\<close>
  "on_segment p q xy =
     ((snd p = snd q \<and> snd xy = snd p \<and> min (fst p) (fst q) \<le> fst xy \<and> fst xy \<le> max (fst p) (fst q))
    \<or> (fst p = fst q \<and> fst xy = fst p \<and> min (snd p) (snd q) \<le> snd xy \<and> snd xy \<le> max (snd p) (snd q)))"

fun getpixel :: "image \<Rightarrow> point \<Rightarrow> color option" where
  "getpixel (New m sz c) xy = (if in_bounds (New m sz c) xy then Some (ink m c) else None)"
| "getpixel (Line im p q c) xy =
     (if \<not> in_bounds im xy then None
      else if fst p \<noteq> fst q \<and> snd p \<noteq> snd q then None
      else if on_segment p q xy then Some (ink (mode_of im) c)
      else getpixel im xy)"
| "getpixel (Convert im m) xy =
     (case getpixel im xy of
        None \<Rightarrow> None
      | Some v \<Rightarrow>
          (if mode_of im = m then Some v
           else if mode_of im = RGB \<and> m = RGBA then Some (v @ [255])
           else if mode_of im = RGBA \<and> m = RGB then Some (take 3 v)
           else None))"
| "getpixel (Copy im) xy = getpixel im xy"
| "getpixel im xy = None"

fun text_calls :: "image \<Rightarrow> (point \<times> string \<times> color \<times> font) list" where
  \<comment> \<open>the text-drawing calls that went into an image, in the order of the calls:
      position, text, fill and font of each\<close>
  "text_calls (New m sz c) = []"
| "text_calls (Line im p q c) = text_calls im"
| "text_calls (Ellipse im b c) = text_calls im"
| "text_calls (RoundedRectangle im b r f ol w) = text_calls im"
| "text_calls (DrawText im p s c f) = text_calls im @ [(p, s, c, f)]"
| "text_calls (GaussianBlur im r) = text_calls im"
| "text_calls (Convert im m) = text_calls im"
| "text_calls (AlphaComposite a b) = text_calls a @ text_calls b"
| "text_calls (Paste im src p msk) = text_calls im @ text_calls src"
| "text_calls (Resize im sz rs) = text_calls im"
| "text_calls (PutAlpha im a) = text_calls im"
| "text_calls (Crop im b) = text_calls im"
| "text_calls (Copy im) = text_calls im"

subsection \<open>draw_gradient\<close>

definition mid_y :: int where
  \<comment> \<open>\<open>mid_y = int(H * 0.4)\<close>\<close>
  "mid_y = py_int (of_int H * (4 / 10))"

definition gradient_color :: "int \<Rightarrow> color" where
  \<comment> \<open>the colour the loop body of \<open>draw_gradient\<close> computes for row \<open>y\<close>\<close>
  "gradient_color y =
     (if y \<le> mid_y then lerp_color exact BG_TOP BG_MID (of_int y / of_int mid_y)
      else lerp_color exact BG_MID BG_BOT (of_int (y - mid_y) / of_int (H - mid_y)))"

definition draw_gradient :: "image \<Rightarrow> image" where
  "draw_gradient img = fold (\<lambda>y im. Line im (0, y) (W, y) (gradient_color y)) (py_range H) img"

subsection \<open>draw_glow and draw_scanlines\<close>

definition draw_glow :: "image \<Rightarrow> image" where
  "draw_glow img =
     (let glow = New RGBA (W, H) [0, 0, 0, 0];
          cx = W div 2;
          cy = py_int (of_int H * (30 / 100));
          radius = 450;
          glow = fold (\<lambda>r g.
                   let t = 1 - of_int r / of_int radius;
                       alpha = py_int (t * t * 80)
                   in Ellipse g (cx - r, cy - r, cx + r, cy + r) (PURPLE @ [alpha]))
                 (py_range_down radius 0) glow;
          glow = GaussianBlur glow 60
      in Paste img (AlphaComposite (Convert img RGBA) glow) (0, 0) None)"

definition draw_scanlines :: "image \<Rightarrow> image" where
  "draw_scanlines img =
     (let overlay = New RGBA (W, H) [0, 0, 0, 0];
          overlay = fold (\<lambda>y ov.
                      Line (Line ov (0, y + 2) (W, y + 2) [255, 255, 255, 2])
                           (0, y + 3) (W, y + 3) [255, 255, 255, 2])
                    (py_range_step 0 H 4) overlay
      in AlphaComposite (Convert img RGBA) overlay)"

subsection \<open>Paths and number formatting\<close>

definition path_join2 :: "string \<Rightarrow> string \<Rightarrow> string" where
  "path_join2 a b =
     (if b \<noteq> [] \<and> hd b = CHR ''/'' then b
      else if a = [] \<or> last a = CHR ''/'' then a @ b
      else a @ ''/'' @ b)"

definition path_join :: "string \<Rightarrow> string list \<Rightarrow> string" where
  \<comment> \<open>\<open>os.path.join(a, *ps)\<close>\<close>
  "path_join a ps = foldl path_join2 a ps"

definition dirname :: "string \<Rightarrow> string" where
  \<comment> \<open>\<open>os.path.dirname\<close>: up to the last slash, trailing slashes dropped unless that is all\<close>
  "dirname p =
     (let head = rev (dropWhile (\<lambda>c. c \<noteq> CHR ''/'') (rev p))
      in if head \<noteq> [] \<and> \<not> list_all (\<lambda>c. c = CHR ''/'') head
         then rev (dropWhile (\<lambda>c. c = CHR ''/'') (rev head))
         else head)"

definition basename :: "string \<Rightarrow> string" where
  \<comment> \<open>\<open>os.path.basename\<close>: what follows the last slash\<close>
  "basename p = rev (takeWhile (\<lambda>c. c \<noteq> CHR ''/'') (rev p))"

definition makedirs_head :: "string \<Rightarrow> string" where
  \<comment> \<open>\<open>head\<close> in \<open>os.makedirs\<close>: \<open>head, tail = split(name)\<close>, and
      \<open>head, tail = split(head)\<close> once more when \<open>tail\<close> is empty\<close>
  "makedirs_head name = (if basename name = [] then dirname (dirname name) else dirname name)"

definition makedirs_tail :: "string \<Rightarrow> string" where
  "makedirs_tail name = (if basename name = [] then basename (dirname name) else basename name)"

function str_nat :: "nat \<Rightarrow> string" where
  "str_nat n = (if n < 10 then [char_of (48 + n)] else str_nat (n div 10) @ [char_of (48 + n mod 10)])"
  by pat_completeness auto
termination
  by (relation "measure id") auto

declare str_nat.simps [simp del]

definition str :: "int \<Rightarrow> string" where
  "str i = (if i < 0 then ''-'' @ str_nat (nat (- i)) else str_nat (nat i))"

subsection \<open>The files and the process environment\<close>

text \<open>
  A file holds an encoded image, a font (its glyph metrics, by size and text) or text.
  The file system is the journal of the files written, the last entry of a path being its
  content, the directories, the paths that cannot be read and the paths that cannot be
  written (for a directory: in which nothing can be created). The empty path stands for the
  current directory, which exists.
\<close>

datatype file_content = PNG image | FontFile "int \<Rightarrow> string \<Rightarrow> box" | TextFile string

datatype error =
    FileNotFoundError string
  | PermissionError string
  | UnidentifiedImageError string
  | OSError string
  | FileExistsError string
  | NotADirectoryError string
  | IsADirectoryError string

record world =
  files :: "(string \<times> file_content) list"
  dirs :: "string list"
  unreadable :: "string list"
  readonly :: "string list"
  stdout :: "string list"

record env =
  script_file :: string
  load_default :: font

definition lookup :: "world \<Rightarrow> string \<Rightarrow> file_content option" where
  "lookup w p = map_of (rev (files w)) p"

definition Image_open :: "string \<Rightarrow> world \<Rightarrow> error + image" where
  "Image_open p w =
     (case lookup w p of
        None \<Rightarrow> Inl (FileNotFoundError p)
      | Some f \<Rightarrow>
          (if p \<in> set (unreadable w) then Inl (PermissionError p)
           else case f of PNG im \<Rightarrow> Inr im | _ \<Rightarrow> Inl (UnidentifiedImageError p)))"

definition truetype :: "string \<Rightarrow> int \<Rightarrow> world \<Rightarrow> error + font" where
  "truetype p sz w =
     (case lookup w p of
        Some (FontFile metrics) \<Rightarrow>
          (if p \<in> set (unreadable w) then Inl (OSError ''cannot open resource'')
           else Inr (Font p sz (metrics sz)))
      | _ \<Rightarrow> Inl (OSError ''cannot open resource''))"

definition isfile :: "world \<Rightarrow> string \<Rightarrow> bool" where
  "isfile w p = (lookup w p \<noteq> None)"

definition isdir :: "world \<Rightarrow> string \<Rightarrow> bool" where
  "isdir w p = (p \<in> set (dirs w))"

definition path_exists :: "world \<Rightarrow> string \<Rightarrow> bool" where
  "path_exists w p = (isfile w p \<or> isdir w p)"

definition mkdir :: "string \<Rightarrow> world \<Rightarrow> error + world" where
  \<comment> \<open>\<open>os.mkdir(p)\<close>\<close>
  "mkdir p w =
     (if isfile w (dirname p) then Inl (NotADirectoryError p)
      else if path_exists w p then Inl (FileExistsError p)
      else if dirname p \<noteq> [] \<and> \<not> isdir w (dirname p) then Inl (FileNotFoundError p)
      else if dirname p \<in> set (readonly w) then Inl (PermissionError p)
      else Inr (w\<lparr>dirs := dirs w @ [p]\<rparr>))"

definition mkdir_exist_ok :: "string \<Rightarrow> world \<Rightarrow> error + world" where
  \<comment> \<open>the last step of \<open>os.makedirs\<close>:
      \<open>try: mkdir(name)  except OSError: if not path.isdir(name): raise\<close>\<close>
  "mkdir_exist_ok name w =
     (case mkdir name w of
        Inl err \<Rightarrow> (if isdir w name then Inr w else Inl err)
      | Inr w' \<Rightarrow> Inr w')"

function makedirs :: "string \<Rightarrow> world \<Rightarrow> error + world" where
  \<comment> \<open>\<open>os.makedirs(name, exist_ok=True)\<close>: the missing ancestors first, a
      \<open>FileExistsError\<close> of theirs passed over, then the directory itself\<close>
  "makedirs name w =
     (if makedirs_head name \<noteq> [] \<and> makedirs_tail name \<noteq> [] \<and> \<not> path_exists w (makedirs_head name)
      then (case makedirs (makedirs_head name) w of
              Inl (FileExistsError p) \<Rightarrow>
                (if makedirs_tail name = ''.'' then Inr w else mkdir_exist_ok name w)
            | Inl err \<Rightarrow> Inl err
            | Inr w' \<Rightarrow>
                (if makedirs_tail name = ''.'' then Inr w' else mkdir_exist_ok name w'))
      else mkdir_exist_ok name w)"
  by pat_completeness auto
termination
proof (relation "measure (\<lambda>(name, w). length name)")
  show "wf (measure (\<lambda>(name, w :: world). length name))" by simp
next
  fix name :: string and w :: world
  assume h: "makedirs_head name \<noteq> [] \<and> makedirs_tail name \<noteq> [] \<and> \<not> path_exists w (makedirs_head name)"
  have d: "length (dirname q) + length (basename q) \<le> length q" for q
  proof -
    have "length (rev (dropWhile (\<lambda>c. c \<noteq> CHR ''/'') (rev q))) + length (basename q) = length q"
      unfolding basename_def
      using takeWhile_dropWhile_id[of "\<lambda>c. c \<noteq> CHR ''/''" "rev q"]
      by (metis add.commute length_append length_rev)
    moreover have "length (dirname q) \<le> length (rev (dropWhile (\<lambda>c. c \<noteq> CHR ''/'') (rev q)))"
      by (simp add: dirname_def Let_def length_dropWhile_le)
    ultimately show ?thesis by linarith
  qed
  have "length (makedirs_head name) < length name"
  proof (cases "basename name = []")
    case True
    with h have "basename (dirname name) \<noteq> []" by (simp add: makedirs_tail_def)
    then have "0 < length (basename (dirname name))" by simp
    with d[of "dirname name"] d[of name] have "length (dirname (dirname name)) < length name"
      by linarith
    with True show ?thesis by (simp add: makedirs_head_def)
  next
    case False
    then have "0 < length (basename name)" by simp
    with d[of name] have "length (dirname name) < length name" by linarith
    with False show ?thesis by (simp add: makedirs_head_def)
  qed
  then show "((makedirs_head name, w), (name, w)) \<in> measure (\<lambda>(name, w). length name)"
    by simp
qed

declare makedirs.simps [simp del]

definition write_file :: "string \<Rightarrow> file_content \<Rightarrow> world \<Rightarrow> error + world" where
  \<comment> \<open>opening \<open>p\<close> for writing and writing \<open>f\<close>\<close>
  "write_file p f w =
     (if isdir w p then Inl (IsADirectoryError p)
      else if isfile w (dirname p) then Inl (NotADirectoryError p)
      else if dirname p \<noteq> [] \<and> \<not> isdir w (dirname p) then Inl (FileNotFoundError p)
      else if p \<in> set (readonly w) \<or> (\<not> isfile w p \<and> dirname p \<in> set (readonly w))
        then Inl (PermissionError p)
      else Inr (w\<lparr>files := files w @ [(p, f)]\<rparr>))"

definition save :: "image \<Rightarrow> string \<Rightarrow> world \<Rightarrow> error + world" where
  \<comment> \<open>\<open>img.save(path, 'PNG', optimize=True)\<close>\<close>
  "save img p w = write_file p (PNG img) w"

definition print :: "string \<Rightarrow> world \<Rightarrow> world" where
  "print line w = w\<lparr>stdout := stdout w @ [line]\<rparr>"

definition SCRIPT_DIR :: "env \<Rightarrow> string" where
  \<comment> \<open>\<open>script_file\<close> is \<open>os.path.abspath(__file__)\<close>\<close>
  "SCRIPT_DIR e = dirname (script_file e)"

definition PROJECT_ROOT :: "env \<Rightarrow> string" where
  "PROJECT_ROOT e = dirname (SCRIPT_DIR e)"

definition ICON_PATH :: "env \<Rightarrow> string" where
  "ICON_PATH e = path_join (PROJECT_ROOT e) [''public'', ''app-icon.png'']"

subsection \<open>draw_icon\<close>

definition draw_icon :: "env \<Rightarrow> world \<Rightarrow> image \<Rightarrow> error + (image \<times> int)" where
  "draw_icon e w img =
     (let icon_size = 216;
          corner_radius = 48
      in case Image_open (ICON_PATH e) w of
           Inl err \<Rightarrow> Inl err
         | Inr opened \<Rightarrow>
             (let icon = Convert opened RGBA;
                  icon = Resize icon (icon_size, icon_size) LANCZOS;
                  msk = New L (icon_size, icon_size) [0];
                  msk = RoundedRectangle msk (0, 0, icon_size, icon_size) corner_radius
                          (Some [255]) None 1;
                  icon = PutAlpha icon msk;
                  shadow = New RGBA (icon_size + 60, icon_size + 60) [0, 0, 0, 0];
                  shadow = RoundedRectangle shadow (30, 30, icon_size + 30, icon_size + 30)
                             corner_radius (Some [147, 51, 234, 60]) None 1;
                  shadow = GaussianBlur shadow 20;
                  icon_y = py_int (of_int H * (34 / 100));
                  icon_x = (W - icon_size) div 2;
                  shadow_x = icon_x - 30;
                  shadow_y = icon_y - 30;
                  img = Paste img shadow (shadow_x, shadow_y) (Some shadow);
                  img = Paste img icon (icon_x, icon_y) (Some icon)
              in Inr (img, icon_y + icon_size)))"

subsection \<open>draw_text\<close>

definition title_text :: string where "title_text = ''NOMO''"

definition tag_text :: string where
  \<comment> \<open>the separators are U+00B7\<close>
  "tag_text = ''FOCUS  '' @ [CHR 0xB7] @ ''  GROW  '' @ [CHR 0xB7] @ ''  COLLECT''"

definition spacing :: int where "spacing = 24"

fun bbox_width :: "box \<Rightarrow> int" where
  \<comment> \<open>\<open>b[2] - b[0]\<close>\<close>
  "bbox_width (x0, y0, x1, y1) = x1 - x0"

fun bbox_height :: "box \<Rightarrow> int" where
  \<comment> \<open>\<open>b[3] - b[1]\<close>\<close>
  "bbox_height (x0, y0, x1, y1) = y1 - y0"

definition font_title :: "env \<Rightarrow> world \<Rightarrow> font" where
  \<comment> \<open>\<open>try: ImageFont.truetype(FONT_BOLD, title_size)  except: ImageFont.load_default()\<close>\<close>
  "font_title e w = (case truetype FONT_BOLD 156 w of Inr f \<Rightarrow> f | Inl err \<Rightarrow> load_default e)"

definition font_tag :: "env \<Rightarrow> world \<Rightarrow> font" where
  \<comment> \<open>\<open>try: ImageFont.truetype(FONT_REG, tag_size)  except: ImageFont.load_default()\<close>\<close>
  "font_tag e w = (case truetype FONT_REG 36 w of Inr f \<Rightarrow> f | Inl err \<Rightarrow> load_default e)"

definition measure_title :: "font \<Rightarrow> int \<times> int list" where
  \<comment> \<open>the measuring loop: \<open>(total_w, char_widths)\<close> after \<open>total_w += spacing * (len - 1)\<close>\<close>
  "measure_title f =
     (let (total_w, char_widths) =
            fold (\<lambda>ch (total_w, char_widths).
                    let cb = getbbox f [ch];
                        cw = bbox_width cb
                    in (total_w + cw, char_widths @ [cw]))
                 title_text (0, []);
          total_w = total_w + spacing * (int (length title_text) - 1)
      in (total_w, char_widths))"

definition total_w :: "font \<Rightarrow> int" where
  "total_w f = fst (measure_title f)"

definition char_widths :: "font \<Rightarrow> int list" where
  "char_widths f = snd (measure_title f)"

definition title_x :: "font \<Rightarrow> int" where
  "title_x f = (W - total_w f) div 2"

definition draw_chars :: "image \<Rightarrow> int \<Rightarrow> int \<Rightarrow> color \<Rightarrow> font \<Rightarrow> image \<times> int" where
  \<comment> \<open>one pass of \<open>for i, ch in enumerate(title_text)\<close>, the same loop for the two glow
      layers and the main text: the image drawn on and the pen position \<open>x\<close> at the end\<close>
  "draw_chars layer x0 title_y fill f =
     fold (\<lambda>(i, ch) (im, x).
             (DrawText im (x, title_y) [ch] fill f,
              x + char_widths f ! i + (if int i < int (length title_text) - 1 then spacing else 0)))
          (enumerate 0 title_text) (layer, x0)"

definition draw_text :: "env \<Rightarrow> world \<Rightarrow> image \<Rightarrow> int \<Rightarrow> image \<times> int" where
  "draw_text e w img below_icon_y =
     (let ft = font_title e w;
          bbox = getbbox ft title_text;
          tw = bbox_width bbox;
          th = bbox_height bbox;
          title_y = below_icon_y + 60;
          tx = title_x ft;
          glow_layer = New RGBA (W, H) [0, 0, 0, 0];
          glow_layer = fst (draw_chars glow_layer tx title_y (PURPLE @ [100]) ft);
          glow_layer = GaussianBlur glow_layer 30;
          img = AlphaComposite (Convert img RGBA) glow_layer;
          glow_layer2 = New RGBA (W, H) [0, 0, 0, 0];
          glow_layer2 = fst (draw_chars glow_layer2 tx title_y (PURPLE @ [140]) ft);
          glow_layer2 = GaussianBlur glow_layer2 12;
          img = AlphaComposite img glow_layer2;
          img = fst (draw_chars img tx title_y TEXT_CLR ft);
          fg = font_tag e w;
          tag_bbox = getbbox fg tag_text;
          tag_w = bbox_width tag_bbox;
          tag_x = (W - tag_w) div 2;
          tag_y = title_y + th + 36;
          img = DrawText img (tag_x, tag_y) tag_text (TAG_CLR @ [153]) fg
      in (img, tag_y + bbox_height tag_bbox))"

subsection \<open>draw_loading_bar\<close>

definition draw_loading_bar :: "image \<Rightarrow> int \<Rightarrow> image" where
  "draw_loading_bar img below_tag_y =
     (let bar_w = 540;
          bar_h = 18;
          bar_x = (W - bar_w) div 2;
          bar_y = below_tag_y + 120;
          img = RoundedRectangle img (bar_x, bar_y, bar_x + bar_w, bar_y + bar_h) 9
                  (Some [255, 255, 255, 20]) None 1;
          img = RoundedRectangle img (bar_x, bar_y, bar_x + bar_w, bar_y + bar_h) 9
                  None (Some (PURPLE @ [51])) 2;
          fill_w = py_int (of_int bar_w * (3 / 10));
          fill_img = New RGBA (fill_w, bar_h) [0, 0, 0, 0];
          fill_img = fold (\<lambda>x fi.
                       let t = of_int x / of_int fill_w;
                           color = lerp_color exact PURPLE PURPLE_LT t
                       in Line fi (x, 0) (x, bar_h) (color @ [255]))
                     (py_range fill_w) fill_img;
          fill_mask = New L (fill_w, bar_h) [0];
          fill_mask = RoundedRectangle fill_mask (0, 0, fill_w, bar_h) 9 (Some [255]) None 1;
          fill_img = PutAlpha fill_img fill_mask;
          glow = GaussianBlur (Copy fill_img) 8;
          img = Paste img
                  (AlphaComposite
                     (Resize (Convert (Crop img (bar_x, bar_y - 10, bar_x + fill_w, bar_y + bar_h + 10)) RGBA)
                        (fill_w, bar_h + 20) DEFAULT_RESAMPLE)
                     (if fill_w > 0 then Resize glow (fill_w, bar_h + 20) DEFAULT_RESAMPLE else glow))
                  (bar_x, bar_y - 10) None;
          img = Paste img fill_img (bar_x + 2, bar_y + 1) (Some fill_img)
      in img)"

subsection \<open>main\<close>

definition join_lines :: "string list \<Rightarrow> string" where
  "join_lines ls = (case ls of [] \<Rightarrow> [] | l # rest \<Rightarrow> l @ concat (map (\<lambda>k. CHR 0x0A # k) rest))"

definition contents :: string where
  \<comment> \<open>the text written to \<open>Contents.json\<close>, line by line\<close>
  \<open>contents = join_lines
     [''{'',
      ''  "images": ['',
      ''    {'',
      ''      "idiom": "universal",'',
      ''      "filename": "splash-1x.png",'',
      ''      "scale": "1x"'',
      ''    },'',
      ''    {'',
      ''      "idiom": "universal",'',
      ''      "filename": "splash-2x.png",'',
      ''      "scale": "2x"'',
      ''    },'',
      ''    {'',
      ''      "idiom": "universal",'',
      ''      "filename": "splash-3x.png",'',
      ''      "scale": "3x"'',
      ''    }'',
      ''  ],'',
      ''  "info": {'',
      ''    "version": 1,'',
      ''    "author": "xcode"'',
      ''  }'',
      ''}'']\<close>

definition out_dir :: "env \<Rightarrow> string" where
  "out_dir e = path_join (PROJECT_ROOT e)
                 [''ios'', ''App'', ''App'', ''Assets.xcassets'', ''LaunchSplash.imageset'']"

definition canvas :: "env \<Rightarrow> world \<Rightarrow> error + image" where
  \<comment> \<open>the drawing stages of \<open>main\<close>, up to \<open>img.convert('RGB')\<close>\<close>
  "canvas e w =
     (let img = New RGB (W, H) BG_TOP;
          img = draw_gradient img;
          img = Convert img RGBA;
          img = draw_glow img;
          img = draw_scanlines img
      in case draw_icon e w img of
           Inl err \<Rightarrow> Inl err
         | Inr (img, below_icon) \<Rightarrow>
             (let (img, below_tag) = draw_text e w img below_icon;
                  img = draw_loading_bar img below_tag
              in Inr (Convert img RGB)))"

definition main :: "env \<Rightarrow> world \<Rightarrow> error option \<times> world" where
  \<comment> \<open>the exception that ends the run, if any, and the world the run leaves\<close>
  "main e w =
     (let w = print (''Generating splash image '' @ str W @ ''x'' @ str H @ ''...'') w
      in case canvas e w of
           Inl err \<Rightarrow> (Some err, w)
         | Inr img \<Rightarrow>
      (case makedirs (out_dir e) w of
           Inl err \<Rightarrow> (Some err, w)
         | Inr w \<Rightarrow>
      (case save img (path_join (out_dir e) [''splash-3x.png'']) w of
           Inl err \<Rightarrow> (Some err, w)
         | Inr w \<Rightarrow>
      (let w = print (''  3x: '' @ str W @ ''x'' @ str H) w;
           w2 = W * 2 div 3;
           h2 = H * 2 div 3;
           img2 = Resize img (w2, h2) LANCZOS
       in case save img2 (path_join (out_dir e) [''splash-2x.png'']) w of
            Inl err \<Rightarrow> (Some err, w)
          | Inr w \<Rightarrow>
      (let w = print (''  2x: '' @ str w2 @ ''x'' @ str h2) w;
           w1 = W div 3;
           h1 = H div 3;
           img1 = Resize img (w1, h1) LANCZOS
       in case save img1 (path_join (out_dir e) [''splash-1x.png'']) w of
            Inl err \<Rightarrow> (Some err, w)
          | Inr w \<Rightarrow>
      (let w = print (''  1x: '' @ str w1 @ ''x'' @ str h1) w
       in case write_file (path_join (out_dir e) [''Contents.json'']) (TextFile contents) w of
            Inl err \<Rightarrow> (Some err, w)
          | Inr w \<Rightarrow> (None, print (''Done! Output: '' @ out_dir e) w)))))))"

subsection \<open>Reading the manifest\<close>

text \<open>
  A reader for the JSON subset the manifest uses (objects, arrays, strings without escapes,
  unsigned integers), to state what the written text lists.
\<close>

datatype token = LBRACE | RBRACE | LBRACK | RBRACK | COLON | COMMA | TSTR string | TNUM nat | BAD

datatype lex_state = Idle | InStr string | InNum nat

definition is_digit :: "char \<Rightarrow> bool" where
  "is_digit c = (48 \<le> (of_char c :: nat) \<and> (of_char c :: nat) \<le> 57)"

definition is_space :: "char \<Rightarrow> bool" where
  "is_space c = (c = CHR '' '' \<or> c = CHR 0x0A \<or> c = CHR 0x09 \<or> c = CHR 0x0D)"

definition punct :: "char \<Rightarrow> token" where
  \<open>punct c = (if c = CHR ''{'' then LBRACE else if c = CHR ''}'' then RBRACE
              else if c = CHR ''['' then LBRACK else if c = CHR '']'' then RBRACK
              else if c = CHR '':'' then COLON else if c = CHR '','' then COMMA else BAD)\<close>

fun lex :: "lex_state \<Rightarrow> string \<Rightarrow> token list" where
  "lex Idle [] = []"
| "lex (InStr buf) [] = [BAD]"
| "lex (InNum n) [] = [TNUM n]"
| "lex Idle (c # cs) =
     (if c = CHR 0x22 then lex (InStr []) cs
      else if is_digit c then lex (InNum (of_char c - 48 :: nat)) cs
      else if is_space c then lex Idle cs
      else punct c # lex Idle cs)"
| "lex (InStr buf) (c # cs) =
     (if c = CHR 0x22 then TSTR buf # lex Idle cs
      else if c = CHR 0x5C then [BAD]
      else lex (InStr (buf @ [c])) cs)"
| "lex (InNum n) (c # cs) =
     (if is_digit c then lex (InNum (10 * n + (of_char c - 48))) cs
      else TNUM n #
        (if c = CHR 0x22 then lex (InStr []) cs
         else if is_space c then lex Idle cs
         else punct c # lex Idle cs))"

datatype json = JObject "(string \<times> json) list" | JArray "json list" | JString string | JNumber nat

fun parse_value :: "nat \<Rightarrow> token list \<Rightarrow> (json \<times> token list) option"
  and parse_members :: "nat \<Rightarrow> token list \<Rightarrow> ((string \<times> json) list \<times> token list) option"
  and parse_elements :: "nat \<Rightarrow> token list \<Rightarrow> (json list \<times> token list) option"
where
  "parse_value 0 ts = None"
| "parse_value (Suc n) [] = None"
| "parse_value (Suc n) (TSTR s # ts) = Some (JString s, ts)"
| "parse_value (Suc n) (TNUM k # ts) = Some (JNumber k, ts)"
| "parse_value (Suc n) (LBRACE # RBRACE # ts) = Some (JObject [], ts)"
| "parse_value (Suc n) (LBRACE # ts) =
     (case parse_members n ts of
        Some (ms, RBRACE # rest) \<Rightarrow> Some (JObject ms, rest)
      | _ \<Rightarrow> None)"
| "parse_value (Suc n) (LBRACK # RBRACK # ts) = Some (JArray [], ts)"
| "parse_value (Suc n) (LBRACK # ts) =
     (case parse_elements n ts of
        Some (vs, RBRACK # rest) \<Rightarrow> Some (JArray vs, rest)
      | _ \<Rightarrow> None)"
| "parse_value (Suc n) (t # ts) = None"
| "parse_members 0 ts = None"
| "parse_members (Suc n) (TSTR k # COLON # ts) =
     (case parse_value n ts of
        Some (v, COMMA # rest) \<Rightarrow>
          (case parse_members n rest of
             Some (ms, rest') \<Rightarrow> Some ((k, v) # ms, rest')
           | None \<Rightarrow> None)
      | Some (v, rest) \<Rightarrow> Some ([(k, v)], rest)
      | None \<Rightarrow> None)"
| "parse_members (Suc n) ts = None"
| "parse_elements 0 ts = None"
| "parse_elements (Suc n) ts =
     (case parse_value n ts of
        Some (v, COMMA # rest) \<Rightarrow>
          (case parse_elements n rest of
             Some (vs, rest') \<Rightarrow> Some (v # vs, rest')
           | None \<Rightarrow> None)
      | Some (v, rest) \<Rightarrow> Some ([v], rest)
      | None \<Rightarrow> None)"

definition parse_json :: "string \<Rightarrow> json option" where
  "parse_json s =
     (let ts = lex Idle s
      in case parse_value (length ts) ts of
           Some (v, []) \<Rightarrow> Some v
         | _ \<Rightarrow> None)"

fun field :: "string \<Rightarrow> json \<Rightarrow> json option" where
  "field k (JObject ms) = map_of ms k"
| "field k j = None"

fun image_entry :: "json \<Rightarrow> (string \<times> string) option" where
  \<comment> \<open>the file name and the scale of one entry of \<open>images\<close>\<close>
  "image_entry j =
     (case (field ''filename'' j, field ''scale'' j) of
        (Some (JString f), Some (JString s)) \<Rightarrow> Some (f, s)
      | _ \<Rightarrow> None)"

definition manifest_images :: "string \<Rightarrow> (string \<times> string) option list" where
  "manifest_images s =
     (case parse_json s of
        Some j \<Rightarrow> (case field ''images'' j of Some (JArray es) \<Rightarrow> map image_entry es | _ \<Rightarrow> [])
      | None \<Rightarrow> [])"

definition written :: "world \<Rightarrow> world \<Rightarrow> (string \<times> file_content) list" where
  \<comment> \<open>the files a run from \<open>w\<close> to \<open>w'\<close> wrote, in order\<close>
  "written w w' = drop (length (files w)) (files w')"

fun png_header :: "string \<times> file_content \<Rightarrow> (string \<times> point \<times> mode) option" where
  \<comment> \<open>path, pixel dimensions and mode of a written PNG file\<close>
  "png_header (p, PNG im) = Some (p, size_of im, mode_of im)"
| "png_header (p, f) = None"

definition png_paths :: "(string \<times> file_content) list \<Rightarrow> string list" where
  "png_paths ws = map fst (filter (\<lambda>pf. case snd pf of PNG im \<Rightarrow> True | _ \<Rightarrow> False) ws)"

definition output_paths :: "env \<Rightarrow> string list" where
  \<comment> \<open>the four files \<open>main\<close> writes, in the order it writes them\<close>
  "output_paths e = map (\<lambda>n. path_join (out_dir e) [n])
     [''splash-3x.png'', ''splash-2x.png'', ''splash-1x.png'', ''Contents.json'']"

subsection \<open>A concrete run\<close>

text \<open>
  The scenario of a checkout at \<open>/repo\<close> with a 512 by 512 placeholder icon and both font
  files present, every glyph half as wide as the font size.
\<close>

definition example_metrics :: "int \<Rightarrow> string \<Rightarrow> box" where
  "example_metrics sz s = (0, 0, sz * int (length s) div 2, sz)"

definition example_env :: env where
  "example_env = \<lparr>script_file = ''/repo/scripts/generate-splash.py'',
                  load_default = Font ''default'' 10 (\<lambda>s. (0, 0, 6 * int (length s), 11))\<rparr>"

definition example_icon :: image where
  "example_icon = New RGB (512, 512) [0, 0, 0]"

definition example_world :: world where
  "example_world = \<lparr>files = [(''/repo/public/app-icon.png'', PNG example_icon),
                             (FONT_BOLD, FontFile example_metrics),
                             (FONT_REG, FontFile example_metrics)],
                    dirs = [''/'', ''/repo'', ''/repo/public'', ''/repo/scripts''],
                    unreadable = [], readonly = [], stdout = []\<rparr>"

section \<open>Properties\<close>

subsection \<open>Numerics and lerp_color\<close>


lemma mid_y_val: "mid_y = 1118"
  by (simp add: mid_y_def py_int_def H_def)

lemma py_int_of_int: "py_int (of_int k) = k"
  by (simp add: py_int_def)

lemma py_int_floor: "0 \<le> x \<Longrightarrow> py_int x = \<lfloor>x\<rfloor>"
  by (simp add: py_int_def)

lemma rounding_exact: "rounding exact"
  by (simp add: rounding_def exact_def)

lemma rounding_mono: "rounding fl \<Longrightarrow> x \<le> y \<Longrightarrow> fl x \<le> fl y"
  by (simp add: rounding_def)

lemma rounding_int: "rounding fl \<Longrightarrow> \<bar>n\<bar> \<le> 255 \<Longrightarrow> fl (of_int n) = of_int n"
proof -
  assume r: "rounding fl" and n: "\<bar>n\<bar> \<le> 255"
  have "(255 :: int) \<le> 2 ^ 53" by simp
  with n have "\<bar>n\<bar> \<le> 2 ^ 53" by linarith
  with r show ?thesis by (simp add: rounding_def)
qed

lemma channel_between:
  fixes t :: real
  assumes r: "rounding fl" and a: "0 \<le> a" "a \<le> 255" and b: "0 \<le> b" "b \<le> 255"
    and t: "0 \<le> t" "t \<le> 1"
  shows "of_int (min a b) \<le> fl (of_int a + fl (of_int (b - a) * t))"
    and "fl (of_int a + fl (of_int (b - a) * t)) \<le> of_int (max a b)"
proof -
  let ?p = "fl (of_int (b - a) * t)"
  have fa: "fl (of_int a) = of_int a" and fb: "fl (of_int b) = of_int b"
    and fd: "fl (of_int (b - a)) = of_int (b - a)" and f0: "fl 0 = 0"
    using rounding_int[OF r, of a] rounding_int[OF r, of b] rounding_int[OF r, of "b - a"]
      rounding_int[OF r, of 0] a b by simp_all
  have p: "of_int (min 0 (b - a)) \<le> ?p \<and> ?p \<le> of_int (max 0 (b - a))"
  proof (cases "a \<le> b")
    case True
    then have "0 \<le> of_int (b - a) * t" "of_int (b - a) * t \<le> of_int (b - a)"
      using t by (simp_all add: mult_left_le)
    then have "fl 0 \<le> ?p" "?p \<le> fl (of_int (b - a))"
      using rounding_mono[OF r] by blast+
    with True show ?thesis unfolding f0 fd by simp
  next
    case False
    then have d: "of_int (b - a) \<le> (0 :: real)" by simp
    have "of_int (b - a) * t \<le> 0" using d t by (simp add: mult_nonpos_nonneg)
    moreover have "of_int (b - a) \<le> of_int (b - a) * t"
      using d t mult_left_mono_neg[of t 1 "of_int (b - a)"] by simp
    ultimately have "?p \<le> fl 0" "fl (of_int (b - a)) \<le> ?p"
      using rounding_mono[OF r] by blast+
    with False show ?thesis unfolding f0 fd by simp
  qed
  have "of_int (min a b) \<le> of_int a + ?p" "of_int a + ?p \<le> of_int (max a b)"
    using p by (simp_all add: min_def max_def split: if_splits)
  then have "fl (of_int (min a b)) \<le> fl (of_int a + ?p)" "fl (of_int a + ?p) \<le> fl (of_int (max a b))"
    using rounding_mono[OF r] by blast+
  moreover have "fl (of_int (min a b)) = of_int (min a b)" "fl (of_int (max a b)) = of_int (max a b)"
    using fa fb by (simp_all add: min_def max_def)
  ultimately show "of_int (min a b) \<le> fl (of_int a + ?p)" "fl (of_int a + ?p) \<le> of_int (max a b)"
    by simp_all
qed

lemma lerp_color_0:
  assumes r: "rounding fl" and l: "length c1 \<le> length c2"
    and c: "\<forall>a \<in> set c1. \<bar>a\<bar> \<le> 255"
  shows "lerp_color fl c1 c2 0 = c1"
  using l c unfolding lerp_color_def
proof (induction c1 arbitrary: c2)
  case Nil then show ?case by simp
next
  case (Cons a as)
  then obtain b bs where c2: "c2 = b # bs" by (cases c2) auto
  have "fl 0 = 0" using rounding_int[OF r, of 0] by simp
  moreover have "fl (of_int a) = of_int a" using rounding_int[OF r, of a] Cons.prems by simp
  ultimately have "py_int (fl (of_int a + fl (of_int (b - a) * 0))) = a"
    by (simp add: py_int_of_int)
  with Cons c2 show ?case by simp
qed

lemma lerp_color_1:
  assumes r: "rounding fl" and l: "length c2 \<le> length c1"
    and c: "\<forall>a \<in> set c1. 0 \<le> a \<and> a \<le> 255" "\<forall>b \<in> set c2. 0 \<le> b \<and> b \<le> 255"
  shows "lerp_color fl c1 c2 1 = c2"
  using l c unfolding lerp_color_def
proof (induction c2 arbitrary: c1)
  case Nil then show ?case by simp
next
  case (Cons b bs)
  then obtain a as where c1: "c1 = a # as" by (cases c1) auto
  with Cons.prems have ab: "0 \<le> a" "a \<le> 255" "0 \<le> b" "b \<le> 255" by simp_all
  then have "fl (of_int (b - a)) = of_int (b - a)" using rounding_int[OF r, of "b - a"] by simp
  then have e1: "fl (of_int (b - a) * 1) = of_int (b - a)" by simp
  have e2: "real_of_int a + real_of_int (b - a) = real_of_int b" by simp
  have e3: "fl (of_int b) = of_int b" using rounding_int[OF r, of b] ab by simp
  have "py_int (fl (of_int a + fl (of_int (b - a) * 1))) = b"
    unfolding e1 e2 e3 by (rule py_int_of_int)
  with Cons c1 show ?case by simp
qed

lemma lerp_color_floor:
  assumes r: "rounding fl"
    and c: "\<forall>a \<in> set c1. 0 \<le> a \<and> a \<le> 255" "\<forall>b \<in> set c2. 0 \<le> b \<and> b \<le> 255"
    and t: "0 \<le> t" "t \<le> 1"
  shows "lerp_color fl c1 c2 t = map (\<lambda>(a, b). \<lfloor>fl (of_int a + fl (of_int (b - a) * t))\<rfloor>) (zip c1 c2)"
  unfolding lerp_color_def
proof (rule map_cong[OF refl])
  fix p assume p: "p \<in> set (zip c1 c2)"
  obtain a b where ab: "p = (a, b)" by (cases p)
  with p have "a \<in> set c1" "b \<in> set c2" by (auto dest: set_zip_leftD set_zip_rightD)
  with c have k: "0 \<le> a" "a \<le> 255" "0 \<le> b" "b \<le> 255" by auto
  then have "(0 :: real) \<le> of_int (min a b)" by simp
  with channel_between(1)[OF r k t] have "0 \<le> fl (of_int a + fl (of_int (b - a) * t))"
    by linarith
  then show "(case p of (a, b) \<Rightarrow> py_int (fl (of_int a + fl (of_int (b - a) * t))))
           = (case p of (a, b) \<Rightarrow> \<lfloor>fl (of_int a + fl (of_int (b - a) * t))\<rfloor>)"
    by (simp add: ab py_int_floor)
qed

lemma lerp_color_between:
  assumes r: "rounding fl"
    and c: "\<forall>a \<in> set c1. 0 \<le> a \<and> a \<le> 255" "\<forall>b \<in> set c2. 0 \<le> b \<and> b \<le> 255"
    and t: "0 \<le> t" "t \<le> 1" and i: "i < length c1" "i < length c2"
  shows "min (c1 ! i) (c2 ! i) \<le> lerp_color fl c1 c2 t ! i"
    and "lerp_color fl c1 c2 t ! i \<le> max (c1 ! i) (c2 ! i)"
proof -
  let ?a = "c1 ! i" and ?b = "c2 ! i"
  let ?v = "fl (of_int ?a + fl (of_int (?b - ?a) * t))"
  have k: "0 \<le> ?a" "?a \<le> 255" "0 \<le> ?b" "?b \<le> 255" using c i by simp_all
  have e: "lerp_color fl c1 c2 t ! i = \<lfloor>?v\<rfloor>"
    using i by (simp add: lerp_color_floor[OF r c t])
  have "of_int (min ?a ?b) \<le> ?v" "?v \<le> of_int (max ?a ?b)"
    using channel_between[OF r k t] by simp_all
  then have "min ?a ?b \<le> \<lfloor>?v\<rfloor>" "\<lfloor>?v\<rfloor> \<le> max ?a ?b"
    by (simp_all add: le_floor_iff floor_le_iff)
  then show "min ?a ?b \<le> lerp_color fl c1 c2 t ! i" "lerp_color fl c1 c2 t ! i \<le> max ?a ?b"
    by (simp_all add: e)
qed

text \<open>
  Claim C2, as stated, gives every channel as \<open>floor(a + (b - a) * t)\<close> for every parameter.
  \<open>int\<close> truncates toward zero: from 10 toward 0 at \<open>t = 1.25\<close> the value is \<open>-2.5\<close>
  (every intermediate value is a double, so rounding plays no part), the channel is \<open>-2\<close>
  and the floor is \<open>-3\<close>.
\<close>

theorem lerp_color_floor_counterexample:
  "lerp_color exact [10, 10, 10] [0, 0, 0] (5 / 4) = [- 2, - 2, - 2]
   \<and> map (\<lambda>(a, b). \<lfloor>of_int a + of_int (b - a) * (5 / 4 :: real)\<rfloor>) (zip [10, 10, 10] [0, 0, 0])
       = [- 3, - 3, - 3]"
  by (simp add: lerp_color_def exact_def py_int_def)

text \<open>
  Claim C2, amended. \<open>lerp_color\<close> computes every channel as \<open>int(a + (b - a) * t)\<close> in
  double arithmetic, truncating toward zero. For colours of equal length with components in
  \<open>[0, 255]\<close> and \<open>0 \<le> t \<le> 1\<close> the value computed is not negative, so the channel is
  its floor, and it lies between the two components; at \<open>t = 0\<close> the result is the first
  colour exactly and at \<open>t = 1\<close> the second. This holds for every rounding that keeps the
  order and leaves small integers alone, as rounding to the nearest double does.
\<close>

theorem lerp_color_channels:
  assumes "rounding fl" and "length c1 = length c2"
    and "\<forall>a \<in> set c1. 0 \<le> a \<and> a \<le> 255"
    and "\<forall>b \<in> set c2. 0 \<le> b \<and> b \<le> 255"
  shows "(0 \<le> t \<and> t \<le> 1 \<longrightarrow>
            lerp_color fl c1 c2 t
              = map (\<lambda>(a, b). \<lfloor>fl (of_int a + fl (of_int (b - a) * t))\<rfloor>) (zip c1 c2)
            \<and> (\<forall>i < length c1. min (c1 ! i) (c2 ! i) \<le> lerp_color fl c1 c2 t ! i
                               \<and> lerp_color fl c1 c2 t ! i \<le> max (c1 ! i) (c2 ! i)))
       \<and> lerp_color fl c1 c2 0 = c1
       \<and> lerp_color fl c1 c2 1 = c2"
proof -
  have z: "lerp_color fl c1 c2 0 = c1"
    using assms by (intro lerp_color_0) auto
  have o: "lerp_color fl c1 c2 1 = c2"
    using assms by (intro lerp_color_1) auto
  show ?thesis
    using z o lerp_color_floor[OF assms(1,3,4)] lerp_color_between[OF assms(1,3,4)] assms(2)
    by auto
qed

theorem lerp_color_channels_witness:
  "lerp_color exact [10, 0, 20] [26, 5, 48] (1 / 2) = [18, 2, 34]
   \<and> lerp_color exact [10, 0, 20] [26, 5, 48] 0 = [10, 0, 20]
   \<and> lerp_color exact [10, 0, 20] [26, 5, 48] 1 = [26, 5, 48]"
  using lerp_color_channels[OF rounding_exact, of "[10, 0, 20]" "[26, 5, 48]" "1 / 2"]
  by (simp add: exact_def)

subsection \<open>draw_gradient\<close>


lemma size_of_fold_line:
  "size_of (fold (\<lambda>y im. Line im (p y) (q y) (f y)) ys img) = size_of img"
  by (induction ys arbitrary: img) auto

lemma mode_of_fold_line:
  "mode_of (fold (\<lambda>y im. Line im (p y) (q y) (f y)) ys img) = mode_of img"
  by (induction ys arbitrary: img) auto

lemma getpixel_rows:
  assumes "in_bounds img (x, y)" "fst (size_of img) \<le> w + 1"
  shows "getpixel (fold (\<lambda>y im. Line im (0, y) (w, y) (f y)) (map int [0..<n]) img) (x, y)
       = (if y < int n then Some (ink (mode_of img) (f y)) else getpixel img (x, y))"
proof (induction n)
  case 0
  from assms show ?case by (simp add: in_bounds_def)
next
  case (Suc n)
  let ?im = "fold (\<lambda>y im. Line im (0, y) (w, y) (f y)) (map int [0..<n]) img"
  have b: "in_bounds ?im (x, y)" using assms(1) by (simp add: in_bounds_def size_of_fold_line)
  have m: "mode_of ?im = mode_of img" by (rule mode_of_fold_line)
  consider "y < int n" | "y = int n" | "int n < y" by linarith
  then show ?case
  proof cases
    case 1
    then have "\<not> on_segment (0, int n) (w, int n) (x, y)" by (auto simp: on_segment_def)
    with 1 Suc b show ?thesis by simp
  next
    case 2
    have "on_segment (0, int n) (w, int n) (x, y)"
      using 2 assms by (auto simp: on_segment_def in_bounds_def)
    with 2 b m show ?thesis by simp
  next
    case 3
    then have "\<not> on_segment (0, int n) (w, int n) (x, y)" by (auto simp: on_segment_def)
    with 3 Suc b show ?thesis by simp
  qed
qed

lemma draw_gradient_pixel:
  assumes "size_of img = (W, H)" "0 \<le> x" "x < W" "0 \<le> y" "y < H"
  shows "getpixel (draw_gradient img) (x, y) = Some (ink (mode_of img) (gradient_color y))"
proof -
  have "in_bounds img (x, y)" using assms by (simp add: in_bounds_def)
  moreover have "fst (size_of img) \<le> W + 1" using assms by simp
  ultimately show ?thesis
    unfolding draw_gradient_def py_range_def using assms(4,5)
    by (simp add: getpixel_rows)
qed

lemma length_lerp_color: "length (lerp_color fl c1 c2 t) = min (length c1) (length c2)"
  by (simp add: lerp_color_def)

lemma length_gradient_color: "length (gradient_color y) = 3"
  by (simp add: gradient_color_def length_lerp_color BG_TOP_def BG_MID_def BG_BOT_def)

lemma ink_RGB_gradient: "ink RGB (gradient_color y) = gradient_color y"
  by (simp add: ink_def length_gradient_color)

lemma int_div_eq_iff:
  fixes a n q :: int
  assumes "0 < n"
  shows "a div n = q \<longleftrightarrow> q * n \<le> a \<and> a < q * n + n"
proof
  assume d: "a div n = q"
  have "a = q * n + a mod n" using div_mult_mod_eq[of a n] d by simp
  moreover have "0 \<le> a mod n" "a mod n < n" using assms by simp_all
  ultimately show "q * n \<le> a \<and> a < q * n + n" by linarith
next
  assume h: "q * n \<le> a \<and> a < q * n + n"
  show "a div n = q"
  proof (rule int_div_pos_eq)
    show "a = n * q + (a - q * n)" by (simp add: mult.commute)
    show "0 \<le> a - q * n" using h by simp
    show "a - q * n < n" using h by simp
  qed
qed

lemma py_int_ratio:
  assumes "0 < n" "0 \<le> a * n + (b - a) * k"
  shows "py_int (of_int a + of_int (b - a) * (of_int k / of_int n)) = (a * n + (b - a) * k) div n"
proof -
  have e: "(of_int a + of_int (b - a) * (of_int k / of_int n) :: real)
         = of_int (a * n + (b - a) * k) / of_int n"
    using assms(1) by (simp add: field_simps)
  have "0 \<le> (of_int (a * n + (b - a) * k) / of_int n :: real)"
    using assms by (intro divide_nonneg_pos) (simp_all del: of_int_add of_int_mult of_int_diff)
  then show ?thesis
    unfolding e by (simp only: py_int_floor floor_divide_of_int_eq)
qed

lemma gradient_color_upper:
  assumes "0 \<le> y" "y \<le> 1118"
  shows "gradient_color y = [(11180 + 16 * y) div 1118, (5 * y) div 1118, (22360 + 28 * y) div 1118]"
  using assms py_int_ratio[of 1118 10 26 y] py_int_ratio[of 1118 0 5 y] py_int_ratio[of 1118 20 48 y]
  by (simp add: gradient_color_def mid_y_val lerp_color_def exact_def BG_TOP_def BG_MID_def)

lemma gradient_color_lower:
  assumes "1118 < y" "y < 2796"
  shows "gradient_color y = [(43628 - 13 * (y - 1118)) div 1678, (8390 - 5 * (y - 1118)) div 1678,
                             (80544 - 16 * (y - 1118)) div 1678]"
  using assms py_int_ratio[of 1678 26 13 "y - 1118"] py_int_ratio[of 1678 5 0 "y - 1118"]
    py_int_ratio[of 1678 48 32 "y - 1118"]
  by (simp add: gradient_color_def mid_y_val H_def lerp_color_def exact_def BG_MID_def BG_BOT_def)

lemma gradient_color_BG_BOT:
  assumes "0 \<le> y" "y < H"
  shows "gradient_color y = BG_BOT \<longleftrightarrow> 2692 \<le> y"
proof (cases "y \<le> 1118")
  case True
  with assms show ?thesis
    by (simp add: gradient_color_upper BG_BOT_def int_div_eq_iff)
next
  case False
  with assms have "1118 < y" "y < 2796" by (simp_all add: H_def)
  then show ?thesis
    by (auto simp add: gradient_color_lower BG_BOT_def int_div_eq_iff)
qed

lemma gradient_color_BG_MID:
  assumes "0 \<le> y" "y < H"
  shows "gradient_color y = BG_MID \<longleftrightarrow> y = mid_y"
proof (cases "y \<le> 1118")
  case True
  with assms show ?thesis
    by (auto simp add: gradient_color_upper BG_MID_def mid_y_val int_div_eq_iff)
next
  case False
  with assms have "1118 < y" "y < 2796" by (simp_all add: H_def)
  then show ?thesis
    by (auto simp add: gradient_color_lower BG_MID_def mid_y_val int_div_eq_iff)
qed



text \<open>
  Claim C10, as stated, says that \<open>BG_BOT\<close> never appears on the canvas. It does: the
  last row \<open>y = H - 1\<close> has exactly the colour \<open>BG_BOT\<close>, because every channel of
  \<open>BG_MID\<close> lies above the one of \<open>BG_BOT\<close> and \<open>int\<close> drops the fraction that is left.
\<close>

theorem bottom_stop_counterexample:
  "getpixel (draw_gradient (New RGB (W, H) BG_TOP)) (0, H - 1) = Some BG_BOT"
  using draw_gradient_pixel[of "New RGB (W, H) BG_TOP" 0 "H - 1"] gradient_color_BG_BOT[of "H - 1"]
  by (simp add: ink_RGB_gradient) (simp add: W_def H_def)

text \<open>
  Claim C10, amended. The last row gets a parameter \<open>(H - 1 - mid_y) / (H - mid_y)\<close> below
  1, but truncation makes the rows \<open>y \<ge> 2692\<close>, and only those, exactly \<open>BG_BOT\<close>; the
  row \<open>y = mid_y\<close>, and only that row, is exactly \<open>BG_MID\<close>.
\<close>

theorem gradient_stop_rows:
  assumes "size_of img = (W, H)" and "mode_of img = RGB"
    and "0 \<le> x" "x < W" and "0 \<le> y" "y < H"
  shows "(getpixel (draw_gradient img) (x, y) = Some BG_BOT \<longleftrightarrow> 2692 \<le> y)
       \<and> (getpixel (draw_gradient img) (x, y) = Some BG_MID \<longleftrightarrow> y = mid_y)
       \<and> (of_int (H - 1 - mid_y) / of_int (H - mid_y) < (1 :: real))"
  using assms draw_gradient_pixel[of img x y] gradient_color_BG_BOT[of y] gradient_color_BG_MID[of y]
  by (simp add: ink_RGB_gradient) (simp add: H_def mid_y_val)

theorem gradient_stop_rows_witness:
  "getpixel (draw_gradient (New RGB (W, H) BG_TOP)) (0, 2692) = Some BG_BOT
   \<and> getpixel (draw_gradient (New RGB (W, H) BG_TOP)) (0, 2691) \<noteq> Some BG_BOT
   \<and> getpixel (draw_gradient (New RGB (W, H) BG_TOP)) (0, 2691) \<noteq> Some BG_MID"
  using gradient_stop_rows[of "New RGB (W, H) BG_TOP" 0 2692]
    gradient_stop_rows[of "New RGB (W, H) BG_TOP" 0 2691]
  by (simp add: W_def H_def mid_y_val)

subsection \<open>The canvas and the run\<close>

lemma size_of_draw_gradient: "size_of (draw_gradient img) = size_of img"
  by (simp add: draw_gradient_def size_of_fold_line)

lemma mode_of_draw_gradient: "mode_of (draw_gradient img) = mode_of img"
  by (simp add: draw_gradient_def mode_of_fold_line)

lemma size_of_draw_glow: "size_of (draw_glow img) = size_of img"
  by (simp add: draw_glow_def Let_def)

lemma size_of_draw_scanlines: "size_of (draw_scanlines img) = size_of img"
  by (simp add: draw_scanlines_def Let_def)

lemma size_of_fold_text:
  "size_of (fst (fold (\<lambda>(i, ch) (im, x). (DrawText im (x, y) [ch] c f, g i x)) ics (im0, x0)))
     = size_of im0"
  by (induction ics arbitrary: im0 x0) (auto simp: case_prod_beta)

lemma size_of_draw_chars: "size_of (fst (draw_chars layer x0 y c f)) = size_of layer"
  unfolding draw_chars_def by (rule size_of_fold_text)

lemma size_of_draw_text: "size_of (fst (draw_text e w img b)) = size_of img"
  by (simp add: draw_text_def Let_def size_of_draw_chars)

lemma size_of_draw_loading_bar: "size_of (draw_loading_bar img b) = size_of img"
  by (simp add: draw_loading_bar_def Let_def)

lemma draw_icon_Inl: "Image_open (ICON_PATH e) w = Inl err \<Longrightarrow> draw_icon e w img = Inl err"
  by (simp add: draw_icon_def)

lemma draw_icon_Inr:
  "Image_open (ICON_PATH e) w = Inr icon \<Longrightarrow>
     \<exists>img'. draw_icon e w img = Inr (img', 1166) \<and> size_of img' = size_of img"
  by (simp add: draw_icon_def Let_def py_int_def H_def)

lemma canvas_Inl: "Image_open (ICON_PATH e) w = Inl err \<Longrightarrow> canvas e w = Inl err"
  by (simp add: canvas_def Let_def draw_icon_Inl)

lemma canvas_Inr:
  assumes "Image_open (ICON_PATH e) w = Inr icon"
  shows "\<exists>img. canvas e w = Inr img \<and> size_of img = (W, H) \<and> mode_of img = RGB"
proof -
  let ?bg = "draw_scanlines (draw_glow (Convert (draw_gradient (New RGB (W, H) BG_TOP)) RGBA))"
  obtain img' where i: "draw_icon e w ?bg = Inr (img', 1166)" "size_of img' = size_of ?bg"
    using draw_icon_Inr[OF assms] by blast
  have s: "size_of ?bg = (W, H)"
    by (simp add: size_of_draw_scanlines size_of_draw_glow size_of_draw_gradient)
  show ?thesis
    using i s
    by (simp add: canvas_def Let_def case_prod_beta size_of_draw_loading_bar size_of_draw_text)
qed

lemma canvas_cases:
  "(\<exists>err. Image_open (ICON_PATH e) w = Inl err \<and> canvas e w = Inl err)
 \<or> (\<exists>icon img. Image_open (ICON_PATH e) w = Inr icon \<and> canvas e w = Inr img
        \<and> size_of img = (W, H) \<and> mode_of img = RGB)"
proof (cases "Image_open (ICON_PATH e) w")
  case (Inl err) then show ?thesis by (simp add: canvas_Inl)
next
  case (Inr icon) then show ?thesis using canvas_Inr[OF Inr] by simp
qed

lemma lookup_print [simp]: "lookup (print l w) p = lookup w p"
  by (simp add: lookup_def print_def)

lemma unreadable_print [simp]: "unreadable (print l w) = unreadable w"
  by (simp add: print_def)

lemma Image_open_print [simp]: "Image_open p (print l w) = Image_open p w"
  by (simp add: Image_open_def split: option.splits)

lemma truetype_print [simp]: "truetype p sz (print l w) = truetype p sz w"
  by (simp add: truetype_def split: option.splits file_content.splits)

lemma draw_icon_print [simp]: "draw_icon e (print l w) img = draw_icon e w img"
  by (simp add: draw_icon_def)

lemma draw_text_print [simp]: "draw_text e (print l w) img b = draw_text e w img b"
  by (simp add: draw_text_def font_title_def font_tag_def)

lemma canvas_print [simp]: "canvas e (print l w) = canvas e w"
  by (simp add: canvas_def cong: sum.case_cong)

lemma readonly_print [simp]: "readonly (print l w) = readonly w"
  by (simp add: print_def)

lemma files_print [simp]: "files (print l w) = files w"
  by (simp add: print_def)

lemma dirs_print [simp]: "dirs (print l w) = dirs w"
  by (simp add: print_def)

lemma mkdir_fields:
  assumes "mkdir p w = Inr w'"
  shows "files w' = files w" "stdout w' = stdout w" "readonly w' = readonly w"
    "unreadable w' = unreadable w"
  using assms by (auto simp: mkdir_def split: if_splits)

lemma mkdir_exist_ok_fields:
  assumes "mkdir_exist_ok p w = Inr w'"
  shows "files w' = files w" "stdout w' = stdout w" "readonly w' = readonly w"
    "unreadable w' = unreadable w"
  using assms mkdir_fields[of p w]
  by (auto simp: mkdir_exist_ok_def split: sum.splits if_splits)

lemma makedirs_fields:
  "makedirs name w = Inr w' \<Longrightarrow>
     files w' = files w \<and> stdout w' = stdout w \<and> readonly w' = readonly w
     \<and> unreadable w' = unreadable w"
proof (induction name w arbitrary: w' rule: makedirs.induct)
  case (1 name w)
  show ?case
  proof (cases "makedirs_head name \<noteq> [] \<and> makedirs_tail name \<noteq> []
                \<and> \<not> path_exists w (makedirs_head name)")
    case False
    with "1.prems" have "mkdir_exist_ok name w = Inr w'"
      by (simp add: makedirs.simps[of name w])
    then show ?thesis using mkdir_exist_ok_fields[of name w w'] by simp
  next
    case True
    show ?thesis
    proof (cases "makedirs (makedirs_head name) w")
      case (Inr w1)
      from "1.IH"[OF True Inr]
      have f1: "files w1 = files w" "stdout w1 = stdout w" "readonly w1 = readonly w"
        "unreadable w1 = unreadable w" by simp_all
      from "1.prems" True Inr
      have "w' = w1 \<or> mkdir_exist_ok name w1 = Inr w'"
        by (simp add: makedirs.simps[of name w] split: if_splits)
      then show ?thesis using f1 mkdir_exist_ok_fields[of name w1 w'] by auto
    next
      case (Inl err)
      from "1.prems" True Inl
      have "w' = w \<or> mkdir_exist_ok name w = Inr w'"
        by (simp add: makedirs.simps[of name w] split: if_splits error.splits)
      then show ?thesis using mkdir_exist_ok_fields[of name w w'] by auto
    qed
  qed
qed

lemma write_file_Inr:
  "write_file p f w = Inr w' \<Longrightarrow> w' = w\<lparr>files := files w @ [(p, f)]\<rparr>"
  by (auto simp: write_file_def split: if_splits)

lemma main_fails_canvas:
  assumes "canvas e w = Inl err"
  shows "main e w = (Some err, print (''Generating splash image '' @ str W @ ''x'' @ str H @ ''...'') w)"
  using assms by (simp add: main_def Let_def)

lemma main_None_files:
  assumes "fst (main e w) = None"
  shows "\<exists>img. canvas e w = Inr img \<and>
           files (snd (main e w)) = files w @
             [(path_join (out_dir e) [''splash-3x.png''], PNG img),
              (path_join (out_dir e) [''splash-2x.png''], PNG (Resize img (W * 2 div 3, H * 2 div 3) LANCZOS)),
              (path_join (out_dir e) [''splash-1x.png''], PNG (Resize img (W div 3, H div 3) LANCZOS)),
              (path_join (out_dir e) [''Contents.json''], TextFile contents)]"
proof (cases "canvas e w")
  case (Inl err)
  with assms show ?thesis by (simp add: main_fails_canvas)
next
  case (Inr img)
  let ?w0 = "print (''Generating splash image '' @ str W @ ''x'' @ str H @ ''...'') w"
  show ?thesis
  proof (cases "makedirs (out_dir e) ?w0")
    case (Inl err)
    with assms Inr show ?thesis by (simp add: main_def Let_def)
  next
    case mk: (Inr w1)
    have f1: "files w1 = files w" using makedirs_fields[OF mk] by simp
    let ?p3 = "path_join (out_dir e) [''splash-3x.png'']"
    let ?p2 = "path_join (out_dir e) [''splash-2x.png'']"
    let ?p1 = "path_join (out_dir e) [''splash-1x.png'']"
    let ?pc = "path_join (out_dir e) [''Contents.json'']"
    let ?i2 = "Resize img (W * 2 div 3, H * 2 div 3) LANCZOS"
    let ?i1 = "Resize img (W div 3, H div 3) LANCZOS"
    from assms Inr mk obtain w2 w3 w4 w5 where
      s3: "write_file ?p3 (PNG img) w1 = Inr w2" and
      s2: "write_file ?p2 (PNG ?i2) (print (''  3x: '' @ str W @ ''x'' @ str H) w2) = Inr w3" and
      s1: "write_file ?p1 (PNG ?i1)
             (print (''  2x: '' @ str (W * 2 div 3) @ ''x'' @ str (H * 2 div 3)) w3) = Inr w4" and
      sc: "write_file ?pc (TextFile contents)
             (print (''  1x: '' @ str (W div 3) @ ''x'' @ str (H div 3)) w4) = Inr w5" and
      fin: "snd (main e w) = print (''Done! Output: '' @ out_dir e) w5"
      by (auto simp add: main_def Let_def save_def split: sum.splits)
    have "files w2 = files w @ [(?p3, PNG img)]"
      using write_file_Inr[OF s3] f1 by simp
    moreover have "files w3 = files w2 @ [(?p2, PNG ?i2)]"
      using write_file_Inr[OF s2] by simp
    moreover have "files w4 = files w3 @ [(?p1, PNG ?i1)]"
      using write_file_Inr[OF s1] by simp
    moreover have "files w5 = files w4 @ [(?pc, TextFile contents)]"
      using write_file_Inr[OF sc] by simp
    ultimately show ?thesis using Inr fin by simp
  qed
qed

lemma main_error_cases:
  assumes "fst (main e w) = Some err"
  shows "canvas e w = Inl err
       \<or> makedirs (out_dir e) (print (''Generating splash image '' @ str W @ ''x'' @ str H @ ''...'') w)
           = Inl err
       \<or> (\<exists>p f w'. p \<in> set (output_paths e) \<and> write_file p f w' = Inl err)"
proof (cases "canvas e w")
  case (Inl err')
  with assms show ?thesis by (simp add: main_fails_canvas)
next
  case (Inr img)
  let ?w0 = "print (''Generating splash image '' @ str W @ ''x'' @ str H @ ''...'') w"
  show ?thesis
  proof (cases "makedirs (out_dir e) ?w0")
    case (Inl err')
    with assms Inr show ?thesis by (simp add: main_def Let_def)
  next
    case mk: (Inr w1)
    show ?thesis
      using assms Inr mk
      by (auto simp add: main_def Let_def save_def output_paths_def split: sum.splits)
  qed
qed

lemma example_paths:
  "ICON_PATH example_env = ''/repo/public/app-icon.png''"
  "out_dir example_env = ''/repo/ios/App/App/Assets.xcassets/LaunchSplash.imageset''"
  by (simp_all add: ICON_PATH_def out_dir_def PROJECT_ROOT_def SCRIPT_DIR_def dirname_def
      path_join_def path_join2_def example_env_def)

lemma example_output_paths:
  "output_paths example_env =
     [''/repo/ios/App/App/Assets.xcassets/LaunchSplash.imageset/splash-3x.png'',
      ''/repo/ios/App/App/Assets.xcassets/LaunchSplash.imageset/splash-2x.png'',
      ''/repo/ios/App/App/Assets.xcassets/LaunchSplash.imageset/splash-1x.png'',
      ''/repo/ios/App/App/Assets.xcassets/LaunchSplash.imageset/Contents.json'']"
  by (simp add: output_paths_def example_paths path_join_def path_join2_def)

lemma example_icon_opens:
  "Image_open (ICON_PATH example_env) example_world = Inr example_icon"
  "Image_open (ICON_PATH example_env) (example_world\<lparr>files := [(''/repo/public/app-icon.png'', PNG example_icon)]\<rparr>) = Inr example_icon"
  "Image_open (ICON_PATH example_env) (example_world\<lparr>files := []\<rparr>)
     = Inl (FileNotFoundError ''/repo/public/app-icon.png'')"
  by (simp_all add: example_paths Image_open_def lookup_def example_world_def FONT_BOLD_def FONT_REG_def)

lemma example_heads:
  "makedirs_head ''/repo/ios/App/App/Assets.xcassets/LaunchSplash.imageset'' = ''/repo/ios/App/App/Assets.xcassets''"
  "makedirs_head ''/repo/ios/App/App/Assets.xcassets'' = ''/repo/ios/App/App''"
  "makedirs_head ''/repo/ios/App/App'' = ''/repo/ios/App''"
  "makedirs_head ''/repo/ios/App'' = ''/repo/ios''"
  "makedirs_head ''/repo/ios'' = ''/repo''"
  "dirname ''/repo/ios/App/App/Assets.xcassets/LaunchSplash.imageset'' = ''/repo/ios/App/App/Assets.xcassets''"
  "dirname ''/repo/ios/App/App/Assets.xcassets'' = ''/repo/ios/App/App''"
  "dirname ''/repo/ios/App/App'' = ''/repo/ios/App''"
  "dirname ''/repo/ios/App'' = ''/repo/ios''"
  "dirname ''/repo/ios'' = ''/repo''"
  "makedirs_tail ''/repo/ios/App/App/Assets.xcassets/LaunchSplash.imageset'' = ''LaunchSplash.imageset''"
  "makedirs_tail ''/repo/ios/App/App/Assets.xcassets'' = ''Assets.xcassets''"
  "makedirs_tail ''/repo/ios/App/App'' = ''App''"
  "makedirs_tail ''/repo/ios/App'' = ''App''"
  "makedirs_tail ''/repo/ios'' = ''ios''"
  by (simp_all add: makedirs_head_def makedirs_tail_def basename_def dirname_def)

lemma example_makedirs:
  assumes d: "dirs w = [''/'', ''/repo'', ''/repo/public'', ''/repo/scripts'']"
    and r: "readonly w = []"
    and f: "list_all (\<lambda>p. lookup w p = None)
              [''/repo'', ''/repo/ios'', ''/repo/ios/App'', ''/repo/ios/App/App'',
               ''/repo/ios/App/App/Assets.xcassets'',
               ''/repo/ios/App/App/Assets.xcassets/LaunchSplash.imageset'']"
  shows "makedirs ''/repo/ios/App/App/Assets.xcassets/LaunchSplash.imageset'' w =
           Inr (w\<lparr>dirs := [''/'', ''/repo'', ''/repo/public'', ''/repo/scripts'', ''/repo/ios'',
                           ''/repo/ios/App'', ''/repo/ios/App/App'', ''/repo/ios/App/App/Assets.xcassets'',
                           ''/repo/ios/App/App/Assets.xcassets/LaunchSplash.imageset'']\<rparr>)"
proof -
  have 1: "makedirs ''/repo/ios'' w = Inr (w\<lparr>dirs := dirs w @ [''/repo/ios'']\<rparr>)"
    using d r f
    by (simp add: makedirs.simps[of "''/repo/ios''"] example_heads path_exists_def isfile_def isdir_def
        mkdir_exist_ok_def mkdir_def)
  have 2: "makedirs ''/repo/ios/App'' w = Inr (w\<lparr>dirs := dirs w @ [''/repo/ios'', ''/repo/ios/App'']\<rparr>)"
    using d r f
    by (simp add: makedirs.simps[of "''/repo/ios/App''"] 1 example_heads path_exists_def isfile_def isdir_def
        mkdir_exist_ok_def mkdir_def lookup_def)
  have 3: "makedirs ''/repo/ios/App/App'' w =
             Inr (w\<lparr>dirs := dirs w @ [''/repo/ios'', ''/repo/ios/App'', ''/repo/ios/App/App'']\<rparr>)"
    using d r f
    by (simp add: makedirs.simps[of "''/repo/ios/App/App''"] 2 example_heads path_exists_def isfile_def
        isdir_def mkdir_exist_ok_def mkdir_def lookup_def)
  have 4: "makedirs ''/repo/ios/App/App/Assets.xcassets'' w =
             Inr (w\<lparr>dirs := dirs w @ [''/repo/ios'', ''/repo/ios/App'', ''/repo/ios/App/App'',
                                       ''/repo/ios/App/App/Assets.xcassets'']\<rparr>)"
    using d r f
    by (simp add: makedirs.simps[of "''/repo/ios/App/App/Assets.xcassets''"] 3 example_heads
        path_exists_def isfile_def isdir_def mkdir_exist_ok_def mkdir_def lookup_def)
  show ?thesis
    using d r f
    by (simp add: makedirs.simps[of "''/repo/ios/App/App/Assets.xcassets/LaunchSplash.imageset''"] 4
        example_heads path_exists_def isfile_def isdir_def mkdir_exist_ok_def mkdir_def lookup_def)
qed

lemma example_dirnames:
  "dirname ''/repo/ios/App/App/Assets.xcassets/LaunchSplash.imageset/splash-3x.png''
     = ''/repo/ios/App/App/Assets.xcassets/LaunchSplash.imageset''"
  "dirname ''/repo/ios/App/App/Assets.xcassets/LaunchSplash.imageset/splash-2x.png''
     = ''/repo/ios/App/App/Assets.xcassets/LaunchSplash.imageset''"
  "dirname ''/repo/ios/App/App/Assets.xcassets/LaunchSplash.imageset/splash-1x.png''
     = ''/repo/ios/App/App/Assets.xcassets/LaunchSplash.imageset''"
  "dirname ''/repo/ios/App/App/Assets.xcassets/LaunchSplash.imageset/Contents.json''
     = ''/repo/ios/App/App/Assets.xcassets/LaunchSplash.imageset''"
  by (simp_all add: dirname_def)

lemma example_run_completes:
  assumes d: "dirs w = [''/'', ''/repo'', ''/repo/public'', ''/repo/scripts'']"
    and r: "readonly w = []"
    and i: "Image_open (ICON_PATH example_env) w = Inr icon"
    and f: "list_all (\<lambda>p. map_of (rev (files w)) p = None)
              [''/repo'', ''/repo/ios'', ''/repo/ios/App'', ''/repo/ios/App/App'',
               ''/repo/ios/App/App/Assets.xcassets'',
               ''/repo/ios/App/App/Assets.xcassets/LaunchSplash.imageset'']"
  shows "fst (main example_env w) = None"
proof -
  obtain img where c: "canvas example_env w = Inr img"
    using canvas_Inr[OF i] by blast
  have m: "makedirs ''/repo/ios/App/App/Assets.xcassets/LaunchSplash.imageset'' (print l w) =
           Inr ((print l w)\<lparr>dirs := [''/'', ''/repo'', ''/repo/public'', ''/repo/scripts'', ''/repo/ios'',
                           ''/repo/ios/App'', ''/repo/ios/App/App'', ''/repo/ios/App/App/Assets.xcassets'',
                           ''/repo/ios/App/App/Assets.xcassets/LaunchSplash.imageset'']\<rparr>)" for l
    using d r f by (intro example_makedirs) (simp_all add: lookup_def)
  show ?thesis
    using f r
    by (simp add: main_def Let_def c example_paths m save_def path_join_def path_join2_def
        write_file_def example_dirnames isdir_def isfile_def lookup_def)
qed

lemma example_success:
  "fst (main example_env example_world) = None"
  "fst (main example_env (example_world\<lparr>files := [(''/repo/public/app-icon.png'', PNG example_icon)]\<rparr>)) = None"
proof -
  show "fst (main example_env example_world) = None"
    by (rule example_run_completes[OF _ _ example_icon_opens(1)])
       (simp_all add: example_world_def FONT_BOLD_def FONT_REG_def)
  show "fst (main example_env (example_world\<lparr>files := [(''/repo/public/app-icon.png'', PNG example_icon)]\<rparr>)) = None"
    by (rule example_run_completes[OF _ _ example_icon_opens(2)])
       (simp_all add: example_world_def)
qed

text \<open>A regular file where a directory has to be made ends the run before any output.\<close>

lemma makedirs_file_in_the_way:
  assumes d: "dirs w = [''/'', ''/repo'', ''/repo/public'', ''/repo/scripts'']"
    and f: "lookup w ''/repo/ios'' \<noteq> None"
      "list_all (\<lambda>p. lookup w p = None)
         [''/repo/ios/App'', ''/repo/ios/App/App'', ''/repo/ios/App/App/Assets.xcassets'',
          ''/repo/ios/App/App/Assets.xcassets/LaunchSplash.imageset'']"
  shows "makedirs ''/repo/ios/App/App/Assets.xcassets/LaunchSplash.imageset'' w
           = Inl (NotADirectoryError ''/repo/ios/App'')"
proof -
  have 2: "makedirs ''/repo/ios/App'' w = Inl (NotADirectoryError ''/repo/ios/App'')"
    using d f
    by (simp add: makedirs.simps[of "''/repo/ios/App''"] example_heads path_exists_def isfile_def isdir_def
        mkdir_exist_ok_def mkdir_def)
  have 3: "makedirs ''/repo/ios/App/App'' w = Inl (NotADirectoryError ''/repo/ios/App'')"
    using d f
    by (simp add: makedirs.simps[of "''/repo/ios/App/App''"] 2 example_heads path_exists_def isfile_def
        isdir_def)
  have 4: "makedirs ''/repo/ios/App/App/Assets.xcassets'' w = Inl (NotADirectoryError ''/repo/ios/App'')"
    using d f
    by (simp add: makedirs.simps[of "''/repo/ios/App/App/Assets.xcassets''"] 3 example_heads
        path_exists_def isfile_def isdir_def)
  show ?thesis
    using d f
    by (simp add: makedirs.simps[of "''/repo/ios/App/App/Assets.xcassets/LaunchSplash.imageset''"] 4
        example_heads path_exists_def isfile_def isdir_def)
qed

lemma example_file_in_the_way:
  "main example_env (example_world\<lparr>files := files example_world @ [(''/repo/ios'', TextFile [])]\<rparr>)
     = (Some (NotADirectoryError ''/repo/ios/App''),
        print (''Generating splash image '' @ str W @ ''x'' @ str H @ ''...'')
          (example_world\<lparr>files := files example_world @ [(''/repo/ios'', TextFile [])]\<rparr>))"
proof -
  let ?w = "example_world\<lparr>files := files example_world @ [(''/repo/ios'', TextFile [])]\<rparr>"
  have i: "Image_open (ICON_PATH example_env) ?w = Inr example_icon"
    by (simp add: example_paths Image_open_def lookup_def example_world_def FONT_BOLD_def FONT_REG_def)
  obtain img where c: "canvas example_env ?w = Inr img"
    using canvas_Inr[OF i] by blast
  have m: "makedirs ''/repo/ios/App/App/Assets.xcassets/LaunchSplash.imageset'' (print l ?w)
           = Inl (NotADirectoryError ''/repo/ios/App'')" for l
    by (rule makedirs_file_in_the_way)
       (simp_all add: lookup_def example_world_def FONT_BOLD_def FONT_REG_def)
  show ?thesis
    by (simp add: main_def Let_def c example_paths m)
qed

text \<open>
  Claim C1. A run of \<open>main\<close> that completes writes exactly three PNG files, in this order:
  \<open>splash-3x.png\<close> of 1290 by 2796 pixels, which is the canvas itself, \<open>splash-2x.png\<close> of
  860 by 1864 and \<open>splash-1x.png\<close> of 430 by 932, each in mode RGB; the fourth file written
  is the manifest, which is no PNG.
\<close>

theorem main_writes_three_pngs:
  assumes "fst (main e w) = None"
  shows "map png_header (written w (snd (main e w))) =
           [Some (path_join (out_dir e) [''splash-3x.png''], (1290, 2796), RGB),
            Some (path_join (out_dir e) [''splash-2x.png''], (860, 1864), RGB),
            Some (path_join (out_dir e) [''splash-1x.png''], (430, 932), RGB),
            None]
       \<and> (\<exists>img. canvas e w = Inr img \<and> snd (written w (snd (main e w)) ! 0) = PNG img)"
proof -
  from main_None_files[OF assms] obtain img where c: "canvas e w = Inr img"
    and f: "files (snd (main e w)) = files w @
             [(path_join (out_dir e) [''splash-3x.png''], PNG img),
              (path_join (out_dir e) [''splash-2x.png''], PNG (Resize img (W * 2 div 3, H * 2 div 3) LANCZOS)),
              (path_join (out_dir e) [''splash-1x.png''], PNG (Resize img (W div 3, H div 3) LANCZOS)),
              (path_join (out_dir e) [''Contents.json''], TextFile contents)]"
    by blast
  from c canvas_cases[of e w] have sm: "size_of img = (W, H)" "mode_of img = RGB" by auto
  show ?thesis
    using sm c
    by (simp add: written_def f W_def H_def)
qed

theorem main_writes_three_pngs_witness:
  "fst (main example_env example_world) = None \<and>
   map png_header (written example_world (snd (main example_env example_world))) =
     [Some (''/repo/ios/App/App/Assets.xcassets/LaunchSplash.imageset/splash-3x.png'', (1290, 2796), RGB),
      Some (''/repo/ios/App/App/Assets.xcassets/LaunchSplash.imageset/splash-2x.png'', (860, 1864), RGB),
      Some (''/repo/ios/App/App/Assets.xcassets/LaunchSplash.imageset/splash-1x.png'', (430, 932), RGB),
      None]"
  using main_writes_three_pngs[OF example_success(1)] example_success(1)
  by (simp add: example_paths path_join_def path_join2_def)

text \<open>
  Claim C4. When the icon at \<open>ICON_PATH\<close> cannot be opened (missing, unreadable or no
  image), \<open>main\<close> ends with that I/O error, uncaught, and has written no file and created
  no directory: the failure precedes every output.
\<close>

theorem missing_icon_is_fatal:
  assumes "Image_open (ICON_PATH e) w = Inl err"
  shows "fst (main e w) = Some err
       \<and> (err = FileNotFoundError (ICON_PATH e) \<or> err = PermissionError (ICON_PATH e)
            \<or> err = UnidentifiedImageError (ICON_PATH e))
       \<and> files (snd (main e w)) = files w
       \<and> dirs (snd (main e w)) = dirs w
       \<and> written w (snd (main e w)) = []"
proof -
  have "err = FileNotFoundError (ICON_PATH e) \<or> err = PermissionError (ICON_PATH e)
            \<or> err = UnidentifiedImageError (ICON_PATH e)"
    using assms by (auto simp: Image_open_def split: option.splits if_splits file_content.splits)
  then show ?thesis
    using main_fails_canvas[OF canvas_Inl[OF assms]]
    by (simp add: written_def print_def)
qed

theorem missing_icon_is_fatal_witness:
  "fst (main example_env (example_world\<lparr>files := []\<rparr>))
     = Some (FileNotFoundError ''/repo/public/app-icon.png'')
   \<and> files (snd (main example_env (example_world\<lparr>files := []\<rparr>))) = []
   \<and> dirs (snd (main example_env (example_world\<lparr>files := []\<rparr>))) = dirs example_world"
  using missing_icon_is_fatal[OF example_icon_opens(3)]
  by simp

subsection \<open>The manifest\<close>

lemma parse_contents:
  "parse_json contents =
     Some (JObject
       [(''images'',
         JArray
          [JObject [(''idiom'', JString ''universal''), (''filename'', JString ''splash-1x.png''),
                    (''scale'', JString ''1x'')],
           JObject [(''idiom'', JString ''universal''), (''filename'', JString ''splash-2x.png''),
                    (''scale'', JString ''2x'')],
           JObject [(''idiom'', JString ''universal''), (''filename'', JString ''splash-3x.png''),
                    (''scale'', JString ''3x'')]]),
        (''info'', JObject [(''version'', JNumber 1), (''author'', JString ''xcode'')])])"
  by code_simp

lemma manifest_images_contents:
  "manifest_images contents =
     [Some (''splash-1x.png'', ''1x''), Some (''splash-2x.png'', ''2x''), Some (''splash-3x.png'', ''3x'')]"
  by (simp add: manifest_images_def parse_contents)

text \<open>
  Claim C8. After a run that completes, \<open>Contents.json\<close> in the output directory holds the
  manifest text; read as JSON it is an object whose \<open>images\<close> are exactly three entries,
  with file names \<open>splash-1x.png\<close>, \<open>splash-2x.png\<close>, \<open>splash-3x.png\<close> and scales \<open>1x\<close>,
  \<open>2x\<close>, \<open>3x\<close> in this order, and whose \<open>info\<close> has \<open>version\<close> 1 and an \<open>author\<close>; the
  PNG files the run saved are the files of these three names in the output directory.
\<close>

theorem manifest_lists_saved_files:
  assumes "fst (main e w) = None"
  shows "lookup (snd (main e w)) (path_join (out_dir e) [''Contents.json'']) = Some (TextFile contents)
       \<and> parse_json contents =
           Some (JObject
             [(''images'',
               JArray
                [JObject [(''idiom'', JString ''universal''), (''filename'', JString ''splash-1x.png''),
                          (''scale'', JString ''1x'')],
                 JObject [(''idiom'', JString ''universal''), (''filename'', JString ''splash-2x.png''),
                          (''scale'', JString ''2x'')],
                 JObject [(''idiom'', JString ''universal''), (''filename'', JString ''splash-3x.png''),
                          (''scale'', JString ''3x'')]]),
              (''info'', JObject [(''version'', JNumber 1), (''author'', JString ''xcode'')])])
       \<and> manifest_images contents =
           [Some (''splash-1x.png'', ''1x''), Some (''splash-2x.png'', ''2x''),
            Some (''splash-3x.png'', ''3x'')]
       \<and> png_paths (written w (snd (main e w))) =
           map (\<lambda>n. path_join (out_dir e) [n]) [''splash-3x.png'', ''splash-2x.png'', ''splash-1x.png'']"
proof -
  from main_None_files[OF assms] obtain img where c: "canvas e w = Inr img"
    and f: "files (snd (main e w)) = files w @
             [(path_join (out_dir e) [''splash-3x.png''], PNG img),
              (path_join (out_dir e) [''splash-2x.png''], PNG (Resize img (W * 2 div 3, H * 2 div 3) LANCZOS)),
              (path_join (out_dir e) [''splash-1x.png''], PNG (Resize img (W div 3, H div 3) LANCZOS)),
              (path_join (out_dir e) [''Contents.json''], TextFile contents)]"
    by blast
  have l: "lookup (snd (main e w)) (path_join (out_dir e) [''Contents.json'']) = Some (TextFile contents)"
    by (simp add: lookup_def f)
  have p: "png_paths (written w (snd (main e w))) =
           map (\<lambda>n. path_join (out_dir e) [n]) [''splash-3x.png'', ''splash-2x.png'', ''splash-1x.png'']"
    by (simp add: png_paths_def written_def f)
  show ?thesis using l p parse_contents manifest_images_contents by simp
qed

theorem manifest_lists_saved_files_witness:
  "lookup (snd (main example_env example_world))
      ''/repo/ios/App/App/Assets.xcassets/LaunchSplash.imageset/Contents.json'' = Some (TextFile contents)
   \<and> png_paths (written example_world (snd (main example_env example_world))) =
      [''/repo/ios/App/App/Assets.xcassets/LaunchSplash.imageset/splash-3x.png'',
       ''/repo/ios/App/App/Assets.xcassets/LaunchSplash.imageset/splash-2x.png'',
       ''/repo/ios/App/App/Assets.xcassets/LaunchSplash.imageset/splash-1x.png'']"
  using manifest_lists_saved_files[OF example_success(1)]
  by (simp add: example_paths path_join_def path_join2_def)

subsection \<open>draw_glow\<close>

lemma py_range_down_upto: "py_range_down a (a - int n) = rev [a - int n + 1..a]"
proof (induction n)
  case 0
  show ?case by (simp add: py_range_down_def)
next
  case (Suc n)
  have n: "nat (a - (a - int (Suc n))) = Suc n" "nat (a - (a - int n)) = n" by simp_all
  have "py_range_down a (a - int (Suc n)) = py_range_down a (a - int n) @ [a - int n]"
    unfolding py_range_down_def n by simp
  also have "\<dots> = rev ((a - int n) # [a - int n + 1..a])" using Suc by simp
  also have "(a - int n) # [a - int n + 1..a] = [a - int n..a]"
    by (simp add: upto_rec1[of "a - int n" a])
  finally show ?case by simp
qed

lemma glow_radii: "py_range_down 450 0 = rev [1..450]"
  using py_range_down_upto[of 450 450] by simp

text \<open>
  Claim C9. \<open>draw_glow\<close> draws, on a fresh transparent layer, one filled circle around the
  centre \<open>(645, 838)\<close> for every radius \<open>r\<close> from 450 down to 1 (the range ends before 0),
  the circle of radius \<open>r\<close> in \<open>PURPLE\<close> with alpha \<open>int(t * t * 80)\<close>, \<open>t = 1 - r / 450\<close>;
  it then blurs the layer (Gaussian, radius 60) and pastes the alpha-composite of the layer
  over the canvas.
\<close>

theorem draw_glow_structure:
  "draw_glow img =
     Paste img
       (AlphaComposite (Convert img RGBA)
          (GaussianBlur
             (fold (\<lambda>r g. Ellipse g (645 - r, 838 - r, 645 + r, 838 + r)
                              [168, 85, 247, \<lfloor>(1 - of_int r / 450 :: real)\<^sup>2 * 80\<rfloor>])
                   (rev [1..450])
                   (New RGBA (1290, 2796) [0, 0, 0, 0]))
             60))
       (0, 0) None"
  by (simp add: draw_glow_def Let_def glow_radii W_def H_def py_int_def PURPLE_def power2_eq_square)

subsection \<open>Fonts and the title\<close>

lemma measure_title_eq:
  "measure_title f =
     (sum_list (map (\<lambda>ch. bbox_width (getbbox f [ch])) title_text)
        + spacing * (int (length title_text) - 1),
      map (\<lambda>ch. bbox_width (getbbox f [ch])) title_text)"
  by (simp add: measure_title_def title_text_def Let_def)

lemma text_calls_draw_chars:
  "text_calls (fst (draw_chars layer x0 ty c f)) =
     text_calls layer @
     map (\<lambda>(i, ch). ((x0 + sum_list (take i (char_widths f)) + spacing * int i, ty), [ch], c, f))
       (enumerate 0 ''NOMO'')"
  by (simp add: draw_chars_def char_widths_def measure_title_eq title_text_def
      enumerate_eq_zip upt_rec)

lemma text_calls_draw_text:
  "text_calls (fst (draw_text e w img y)) =
     text_calls img @
     concat (map (\<lambda>c. map (\<lambda>(i, ch). ((title_x (font_title e w)
                                             + sum_list (take i (char_widths (font_title e w)))
                                             + spacing * int i, y + 60),
                                          [ch], c, font_title e w))
                           (enumerate 0 ''NOMO''))
               [PURPLE @ [100], PURPLE @ [140], TEXT_CLR]) @
     [(((W - bbox_width (getbbox (font_tag e w) tag_text)) div 2,
        y + 60 + bbox_height (getbbox (font_title e w) title_text) + 36),
       tag_text, TAG_CLR @ [153], font_tag e w)]"
  by (simp add: draw_text_def Let_def text_calls_draw_chars)


lemma canvas_Inl_iff: "canvas e w = Inl err \<longleftrightarrow> Image_open (ICON_PATH e) w = Inl err"
  using canvas_cases[of e w] by auto

text \<open>
  Claim C5. When a font file fails to load, \<open>draw_text\<close> draws with the library's default
  font instead: all twelve title glyphs (two glow passes and the main pass) when the bold font
  fails, the tagline when the regular font fails. A font never makes the run fail: the
  rendering stages fail exactly when the icon cannot be opened, with the icon's error, and
  every error \<open>main\<close> ends with is the icon's, that of \<open>makedirs\<close> or that of writing an
  output file, none of which is caught. The font fallback is the one place where an error
  is replaced by a value.
\<close>

theorem font_fallback:
  "(isl (truetype FONT_BOLD 156 w) \<longrightarrow>
      map (\<lambda>(p, s, c, f). f)
        (take 12 (drop (length (text_calls img)) (text_calls (fst (draw_text e w img y)))))
      = replicate 12 (load_default e))
   \<and> (isl (truetype FONT_REG 36 w) \<longrightarrow>
      map (\<lambda>(p, s, c, f). (s, f))
        (drop 12 (drop (length (text_calls img)) (text_calls (fst (draw_text e w img y)))))
      = [(tag_text, load_default e)])
   \<and> (\<forall>fb. truetype FONT_BOLD 156 w = Inr fb \<longrightarrow>
      map (\<lambda>(p, s, c, f). f)
        (take 12 (drop (length (text_calls img)) (text_calls (fst (draw_text e w img y)))))
      = replicate 12 fb)
   \<and> (\<forall>fr. truetype FONT_REG 36 w = Inr fr \<longrightarrow>
      map (\<lambda>(p, s, c, f). (s, f))
        (drop 12 (drop (length (text_calls img)) (text_calls (fst (draw_text e w img y)))))
      = [(tag_text, fr)])
   \<and> (canvas e w = Inl err \<longleftrightarrow> Image_open (ICON_PATH e) w = Inl err)
   \<and> (fst (main e w) = Some err \<longrightarrow>
        Image_open (ICON_PATH e) w = Inl err
        \<or> makedirs (out_dir e) (print (''Generating splash image '' @ str W @ ''x'' @ str H @ ''...'') w)
            = Inl err
        \<or> (\<exists>p f w'. p \<in> set (output_paths e) \<and> write_file p f w' = Inl err))"
proof -
  have t: "isl (truetype FONT_BOLD 156 w) \<longrightarrow> font_title e w = load_default e"
    "\<forall>fb. truetype FONT_BOLD 156 w = Inr fb \<longrightarrow> font_title e w = fb"
    by (auto simp: font_title_def split: sum.splits)
  have g: "isl (truetype FONT_REG 36 w) \<longrightarrow> font_tag e w = load_default e"
    "\<forall>fr. truetype FONT_REG 36 w = Inr fr \<longrightarrow> font_tag e w = fr"
    by (auto simp: font_tag_def split: sum.splits)
  have a: "map (\<lambda>(p, s, c, f). f)
        (take 12 (drop (length (text_calls img)) (text_calls (fst (draw_text e w img y)))))
      = replicate 12 (font_title e w)"
    by (simp add: text_calls_draw_text enumerate_eq_zip upt_rec numeral_eq_Suc)
  have b: "map (\<lambda>(p, s, c, f). (s, f))
        (drop 12 (drop (length (text_calls img)) (text_calls (fst (draw_text e w img y)))))
      = [(tag_text, font_tag e w)]"
    by (simp add: text_calls_draw_text enumerate_eq_zip upt_rec)
  have c: "fst (main e w) = Some err \<longrightarrow>
        Image_open (ICON_PATH e) w = Inl err
        \<or> makedirs (out_dir e) (print (''Generating splash image '' @ str W @ ''x'' @ str H @ ''...'') w)
            = Inl err
        \<or> (\<exists>p f w'. p \<in> set (output_paths e) \<and> write_file p f w' = Inl err)"
    using main_error_cases[of e w err] canvas_Inl_iff[of e w err] by blast
  show ?thesis
    unfolding a b using t g c canvas_Inl_iff[of e w err] by simp
qed

theorem font_fallback_witness:
  "isl (truetype FONT_BOLD 156 (example_world\<lparr>files := [(''/repo/public/app-icon.png'', PNG example_icon)]\<rparr>))
   \<and> isl (truetype FONT_REG 36 (example_world\<lparr>files := [(''/repo/public/app-icon.png'', PNG example_icon)]\<rparr>))
   \<and> map (\<lambda>(p, s, c, f). f)
        (text_calls (fst (draw_text example_env
           (example_world\<lparr>files := [(''/repo/public/app-icon.png'', PNG example_icon)]\<rparr>)
           (New RGBA (W, H) [0, 0, 0, 0]) 1166)))
      = replicate 13 (load_default example_env)
   \<and> fst (main example_env (example_world\<lparr>files := [(''/repo/public/app-icon.png'', PNG example_icon)]\<rparr>)) = None"
proof -
  let ?w = "example_world\<lparr>files := [(''/repo/public/app-icon.png'', PNG example_icon)]\<rparr>"
  let ?img = "New RGBA (W, H) [0, 0, 0, 0]"
  let ?tc = "text_calls (fst (draw_text example_env ?w ?img 1166))"
  have t: "isl (truetype FONT_BOLD 156 ?w)" "isl (truetype FONT_REG 36 ?w)"
    by (simp_all add: truetype_def lookup_def FONT_BOLD_def FONT_REG_def)
  have l: "length ?tc = 13"
    by (simp add: text_calls_draw_text enumerate_eq_zip upt_rec)
  have "map (\<lambda>(p, s, c, f). f) (take 12 ?tc) = replicate 12 (load_default example_env)"
    "map (\<lambda>(p, s, c, f). (s, f)) (drop 12 ?tc) = [(tag_text, load_default example_env)]"
    using font_fallback[of ?w ?img example_env 1166] t by simp_all
  then have "map (\<lambda>(p, s, c, f). f) (take 12 ?tc) @ map (\<lambda>(p, s, c, f). f) (drop 12 ?tc)
             = replicate 13 (load_default example_env)"
    by (simp add: numeral_eq_Suc map_eq_Cons_conv) auto
  then have "map (\<lambda>(p, s, c, f). f) ?tc = replicate 13 (load_default example_env)"
    by (simp only: map_append[symmetric] append_take_drop_id)
  with t example_success(2) show ?thesis by simp
qed

text \<open>
  Claim C6. In \<open>draw_text\<close> the widths are those of the four characters of \<open>NOMO\<close>, each
  measured alone; \<open>total_w\<close> is their sum plus \<open>spacing\<close> times the number of characters
  less one; \<open>title_x = (W - total_w) // 2\<close>. Each of the three passes draws character \<open>i\<close>
  at \<open>title_x\<close> plus the widths before it plus \<open>i\<close> times \<open>spacing\<close>, so the block runs
  from \<open>title_x\<close> to \<open>title_x + total_w\<close>, and its centre is within one pixel of \<open>W / 2\<close>.
\<close>

theorem draw_text_title_centred:
  "(let ft = font_title e w in
     take 12 (drop (length (text_calls img)) (text_calls (fst (draw_text e w img y)))) =
       concat (map (\<lambda>c. map (\<lambda>(i, ch). ((title_x ft + sum_list (take i (char_widths ft)) + spacing * int i,
                                             y + 60), [ch], c, ft))
                             (enumerate 0 ''NOMO''))
                 [PURPLE @ [100], PURPLE @ [140], TEXT_CLR])
     \<and> char_widths ft = map (\<lambda>ch. bbox_width (getbbox ft [ch])) ''NOMO''
     \<and> total_w ft = sum_list (char_widths ft) + spacing * (int (length ''NOMO'') - 1)
     \<and> title_x ft = (W - total_w ft) div 2
     \<and> title_x ft + sum_list (take 3 (char_widths ft)) + spacing * 3 + char_widths ft ! 3
         = title_x ft + total_w ft
     \<and> \<bar>(of_int (title_x ft) + of_int (total_w ft) / 2) - of_int W / (2 :: real)\<bar> \<le> 1)"
proof -
  define ft where "ft = font_title e w"
  have p: "take 12 (drop (length (text_calls img)) (text_calls (fst (draw_text e w img y)))) =
       concat (map (\<lambda>c. map (\<lambda>(i, ch). ((title_x ft + sum_list (take i (char_widths ft)) + spacing * int i,
                                             y + 60), [ch], c, ft))
                             (enumerate 0 ''NOMO''))
                 [PURPLE @ [100], PURPLE @ [140], TEXT_CLR])"
    by (simp add: text_calls_draw_text ft_def enumerate_eq_zip upt_rec)
  have a: "char_widths ft = map (\<lambda>ch. bbox_width (getbbox ft [ch])) ''NOMO''"
    by (simp add: char_widths_def measure_title_eq title_text_def)
  have b: "total_w ft = sum_list (char_widths ft) + spacing * (int (length ''NOMO'') - 1)"
    by (simp add: total_w_def char_widths_def measure_title_eq title_text_def)
  have r: "title_x ft + sum_list (take 3 (char_widths ft)) + spacing * 3 + char_widths ft ! 3
         = title_x ft + total_w ft"
    by (simp add: b) (simp add: a numeral_eq_Suc)
  have "2 * title_x ft \<le> W - total_w ft" "W - total_w ft \<le> 2 * title_x ft + 1"
    unfolding title_x_def by presburger+
  then have "-1 \<le> 2 * title_x ft + total_w ft - W" "2 * title_x ft + total_w ft - W \<le> 0"
    by linarith+
  then have "-1 \<le> (of_int (2 * title_x ft + total_w ft - W) :: real)"
    "(of_int (2 * title_x ft + total_w ft - W) :: real) \<le> 0"
    by (simp_all only: of_int_le_iff[symmetric] of_int_minus of_int_1 of_int_0)
  then have d: "\<bar>(of_int (title_x ft) + of_int (total_w ft) / 2) - of_int W / (2 :: real)\<bar> \<le> 1"
    by (simp add: abs_le_iff field_simps)
  show ?thesis
    unfolding Let_def ft_def[symmetric] using p a b r d by (simp add: title_x_def)
qed

theorem draw_text_title_centred_witness:
  "map (\<lambda>(p, s, c, f). (fst p, s))
     (take 4 (text_calls (fst (draw_text example_env example_world (New RGBA (W, H) [0, 0, 0, 0]) 1166))))
     = [(453, ''N''), (555, ''O''), (657, ''M''), (759, ''O'')]
   \<and> total_w (font_title example_env example_world) = 384
   \<and> title_x (font_title example_env example_world) = 453"
proof -
  have f: "font_title example_env example_world = Font FONT_BOLD 156 (example_metrics 156)"
    by (simp add: font_title_def truetype_def lookup_def example_world_def FONT_BOLD_def FONT_REG_def)
  have c: "char_widths (Font FONT_BOLD 156 (example_metrics 156)) = [78, 78, 78, 78]"
    by (simp add: char_widths_def measure_title_eq title_text_def example_metrics_def)
  have t: "take 4 (text_calls (fst (draw_text example_env example_world (New RGBA (W, H) [0, 0, 0, 0]) 1166)))
         = take 4 (take 12 (drop (length (text_calls (New RGBA (W, H) [0, 0, 0, 0])))
                     (text_calls (fst (draw_text example_env example_world (New RGBA (W, H) [0, 0, 0, 0]) 1166)))))"
    by simp
  show ?thesis
    unfolding t
    using draw_text_title_centred[of example_env example_world "New RGBA (W, H) [0, 0, 0, 0]" 1166]
    by (simp add: Let_def f c spacing_def W_def enumerate_eq_zip upt_rec)
qed

end
